theory Spec2Isabelle
  imports Main
begin

section \<open>Data model (prisma/schema.prisma, src/types)\<close>

text \<open>
  Timestamps (\<open>DateTime\<close>, \<open>Date.now()\<close>) are natural numbers of milliseconds.
  Row ids (\<open>cuid()\<close>, \<open>uuidv4()\<close>) are strings handed in by the environment of a call.
\<close>

datatype UserPlan = FREE | PREMIUM

datatype SummaryStatus = PENDING | PROCESSING | COMPLETED | FAILED

record User =
  u_id :: string
  u_email :: string
  u_name :: "string option"
  u_avatar :: "string option"
  u_plan :: UserPlan
  u_credits :: int
  u_supabaseId :: "string option"
  u_createdAt :: nat
  u_updatedAt :: nat
  u_lastLoginAt :: "nat option"
  u_emailVerified :: bool

record TranscriptSegment =
  seg_timestamp :: string
  seg_text :: string
  seg_startSeconds :: "int option"
  seg_endSeconds :: "int option"

record VideoMetadata =
  vm_videoId :: string
  vm_title :: string
  vm_channelName :: string
  vm_duration :: "string option"
  vm_url :: string
  vm_thumbnailUrl :: "string option"

record Summary =
  s_id :: string
  s_title :: string
  s_keyPoints :: "string list"
  s_fullSummary :: string
  s_tags :: "string list"
  s_status :: SummaryStatus
  s_videoId :: string
  s_videoTitle :: string
  s_channelName :: string
  s_videoDuration :: "string option"
  s_videoUrl :: string
  s_thumbnailUrl :: "string option"
  s_transcript :: "TranscriptSegment list option"
  s_transcriptText :: "string option"
  s_userId :: string
  s_createdAt :: nat
  s_updatedAt :: nat

text \<open>\<open>SummaryData\<close>, the shape \<open>formatSummary\<close> returns to the caller.\<close>

record SummaryData =
  sd_id :: string
  sd_title :: string
  sd_keyPoints :: "string list"
  sd_fullSummary :: string
  sd_tags :: "string list"
  sd_status :: SummaryStatus
  sd_videoMetadata :: VideoMetadata
  sd_transcript :: "TranscriptSegment list option"
  sd_transcriptText :: "string option"
  sd_createdAt :: nat
  sd_updatedAt :: nat
  sd_saved :: bool

record GenerateSummaryRequest =
  transcript :: "TranscriptSegment list"
  videoMetadata :: VideoMetadata

record OpenAISummaryResponse =
  keyPoints :: "string list"
  fullSummary :: string
  tags :: "string list"

text \<open>\<open>ServiceResponse<T>\<close>: \<open>{ success, data?, error? }\<close>.\<close>

record 'a ServiceResponse =
  success :: bool
  data :: "'a option"
  error :: "string option"

text \<open>
  What a \<open>throw\<close> carries: an \<open>AppError\<close> (message, status code), a Prisma client error
  (its code), an \<open>OpenAI.APIError\<close> (its \<open>code\<close>, when it has one) or any other \<open>Error\<close>.
  The services test \<open>instanceof AppError\<close>.
\<close>

datatype exn = AppError string nat | PrismaError string | APIError "string option" | OtherError string

text \<open>\<open>throw error instanceof AppError ? error : new AppError(msg, code)\<close>\<close>

fun rethrow :: "string \<Rightarrow> nat \<Rightarrow> exn \<Rightarrow> exn" where
  "rethrow msg code (AppError m c) = AppError m c"
| "rethrow msg code e = AppError msg code"

subsection \<open>JSON Web Tokens, symbolically\<close>

text \<open>
  A token string is a symbolic term: what was signed, with which secret, when, and until
  when it is valid.  \<open>jwt.sign\<close> builds the term; \<open>jwt.verify\<close> succeeds exactly on a term
  signed with the same secret that has not expired.  Any other string is \<open>NotAJwt\<close>.
\<close>

record JwtPayload =
  jp_userId :: string
  jp_email :: string
  jp_plan :: UserPlan

record RefreshTokenPayload =
  rp_userId :: string
  rp_tokenId :: string

datatype claims = AccessClaims JwtPayload | RefreshClaims RefreshTokenPayload

datatype token = Signed string claims nat nat | NotAJwt string

definition jwt_sign :: "claims \<Rightarrow> string \<Rightarrow> nat \<Rightarrow> nat \<Rightarrow> token" where
  "jwt_sign payload secret expiresIn t = Signed secret payload t (t + expiresIn)"

fun jwt_verify :: "token \<Rightarrow> string \<Rightarrow> nat \<Rightarrow> exn + claims" where
  "jwt_verify (Signed s payload iat ex) secret t =
     (if s \<noteq> secret then Inl (OtherError ''invalid signature'')
      else if ex \<le> t then Inl (OtherError ''jwt expired'')
      else Inr payload)"
| "jwt_verify (NotAJwt _) secret t = Inl (OtherError ''jwt malformed'')"

record RefreshToken =
  rt_id :: string
  rt_token :: token
  rt_userId :: string
  rt_expiresAt :: nat
  rt_createdAt :: nat
  rt_revoked :: bool

record LoginResponse =
  lr_user :: User
  lr_accessToken :: token
  lr_refreshToken :: token
  lr_expiresAt :: nat

subsection \<open>The database and the effects on it\<close>

text \<open>
  Every effect of a service call is appended to \<open>journal\<close> where the source performs it:
  the Prisma writes and the call to the OpenAI client.  Reads leave no entry.
\<close>

datatype event =
    SummaryCreated string SummaryStatus
  | SummaryStatusSet string SummaryStatus
  | SummaryEdited string
  | CreditsChanged string int
  | UserTouched string
  | RefreshTokenCreated string
  | RefreshTokenRevoked string
  | SummariesDeleted "string list"
  | OpenAICalled

record db =
  users :: "User list"
  summaries :: "Summary list"
  refreshTokens :: "RefreshToken list"
  journal :: "event list"

definition logEvent :: "event \<Rightarrow> db \<Rightarrow> db" where
  "logEvent e d = d\<lparr>journal := journal d @ [e]\<rparr>"

text \<open>Configuration (src/config/index.ts), the parts the services read.\<close>

record config =
  credits_perSummary :: int
  jwt_secret :: string
  jwt_expiresIn :: nat
  jwt_refreshSecret :: string
  jwt_refreshExpiresIn :: nat

text \<open>What one call takes from outside: the clock and the fresh id of the row it creates.\<close>

record env =
  now :: nat
  newId :: string

definition MAX_TRANSCRIPT_LENGTH :: nat where
  "MAX_TRANSCRIPT_LENGTH = 50000"

definition MAX_SUMMARY_HISTORY :: nat where
  "MAX_SUMMARY_HISTORY = 100"

section \<open>Prisma client operations\<close>

text \<open>
  A table is the list of its rows.  \<open>create\<close> fails with P2002 on a duplicate of a
  primary key or \<open>@unique\<close> column and with P2003 on a dangling foreign key;
  \<open>update\<close> fails with P2025 when no row has the id.
\<close>

definition user_findUnique :: "string \<Rightarrow> db \<Rightarrow> User option" where
  "user_findUnique uid d = find (\<lambda>u. u_id u = uid) (users d)"

definition user_findByEmail :: "string \<Rightarrow> db \<Rightarrow> User option" where
  "user_findByEmail e d = find (\<lambda>u. u_email u = e) (users d)"

definition user_update :: "env \<Rightarrow> string \<Rightarrow> (User \<Rightarrow> User) \<Rightarrow> event \<Rightarrow> db \<Rightarrow> exn + db" where
  "user_update en uid f ev d =
     (case find (\<lambda>u. u_id u = uid) (users d) of
        None \<Rightarrow> Inl (PrismaError ''P2025'')
      | Some _ \<Rightarrow>
          Inr (logEvent ev
            (d\<lparr>users := map (\<lambda>u. if u_id u = uid then (f u)\<lparr>u_updatedAt := now en\<rparr> else u) (users d)\<rparr>)))"

definition summary_findFirst :: "(Summary \<Rightarrow> bool) \<Rightarrow> db \<Rightarrow> Summary option" where
  "summary_findFirst wh d = find wh (summaries d)"

definition summary_create :: "Summary \<Rightarrow> db \<Rightarrow> exn + Summary \<times> db" where
  "summary_create row d =
     (if list_ex (\<lambda>s. s_id s = s_id row) (summaries d) then Inl (PrismaError ''P2002'')
      else if \<not> list_ex (\<lambda>u. u_id u = s_userId row) (users d) then Inl (PrismaError ''P2003'')
      else Inr (row, logEvent (SummaryCreated (s_id row) (s_status row))
                       (d\<lparr>summaries := summaries d @ [row]\<rparr>)))"

definition summary_update ::
  "env \<Rightarrow> string \<Rightarrow> (Summary \<Rightarrow> Summary) \<Rightarrow> event \<Rightarrow> db \<Rightarrow> exn + Summary \<times> db" where
  "summary_update en sid f ev d =
     (case find (\<lambda>s. s_id s = sid) (summaries d) of
        None \<Rightarrow> Inl (PrismaError ''P2025'')
      | Some row \<Rightarrow>
          Inr ((f row)\<lparr>s_updatedAt := now en\<rparr>,
               logEvent ev
                 (d\<lparr>summaries :=
                      map (\<lambda>s. if s_id s = sid then (f s)\<lparr>s_updatedAt := now en\<rparr> else s) (summaries d)\<rparr>)))"

text \<open>\<open>findMany({ where: { userId }, orderBy: { createdAt: "asc" }, take, select: { id } })\<close>\<close>

definition summary_findOldestIds :: "string \<Rightarrow> nat \<Rightarrow> db \<Rightarrow> string list" where
  "summary_findOldestIds uid n d =
     map s_id (take n (sort_key s_createdAt (filter (\<lambda>s. s_userId s = uid) (summaries d))))"

definition summary_deleteMany :: "string list \<Rightarrow> db \<Rightarrow> db" where
  "summary_deleteMany ids d =
     logEvent (SummariesDeleted ids) (d\<lparr>summaries := filter (\<lambda>s. s_id s \<notin> set ids) (summaries d)\<rparr>)"

text \<open>
  \<open>refreshToken.findUnique({ where: { id, token, revoked: false } })\<close>; a field of the
  \<open>where\<close> object that is \<open>undefined\<close> is left out of the condition.
\<close>

definition refreshToken_findUnique :: "string option \<Rightarrow> token \<Rightarrow> db \<Rightarrow> RefreshToken option" where
  "refreshToken_findUnique tid tok d =
     find (\<lambda>r. (case tid of None \<Rightarrow> True | Some i \<Rightarrow> rt_id r = i) \<and> rt_token r = tok \<and> \<not> rt_revoked r)
       (refreshTokens d)"

definition refreshToken_create :: "RefreshToken \<Rightarrow> db \<Rightarrow> exn + db" where
  "refreshToken_create row d =
     (if list_ex (\<lambda>r. rt_id r = rt_id row) (refreshTokens d) then Inl (PrismaError ''P2002'')
      else if list_ex (\<lambda>r. rt_token r = rt_token row) (refreshTokens d) then Inl (PrismaError ''P2002'')
      else if \<not> list_ex (\<lambda>u. u_id u = rt_userId row) (users d) then Inl (PrismaError ''P2003'')
      else Inr (logEvent (RefreshTokenCreated (rt_id row))
                  (d\<lparr>refreshTokens := refreshTokens d @ [row]\<rparr>)))"

definition refreshToken_revoke :: "string \<Rightarrow> db \<Rightarrow> exn + db" where
  "refreshToken_revoke tid d =
     (case find (\<lambda>r. rt_id r = tid) (refreshTokens d) of
        None \<Rightarrow> Inl (PrismaError ''P2025'')
      | Some _ \<Rightarrow>
          Inr (logEvent (RefreshTokenRevoked tid)
            (d\<lparr>refreshTokens :=
                 map (\<lambda>r. if rt_id r = tid then r\<lparr>rt_revoked := True\<rparr> else r) (refreshTokens d)\<rparr>)))"

text \<open>
  \<open>prisma.$transaction([...])\<close>: the writes run in order; if one fails, none of them is
  kept, the database is as it was, and the failure is thrown.
\<close>

fun runWrites :: "(db \<Rightarrow> exn + db) list \<Rightarrow> db \<Rightarrow> exn + db" where
  "runWrites [] d = Inr d"
| "runWrites (w # ws) d = (case w d of Inl e \<Rightarrow> Inl e | Inr d' \<Rightarrow> runWrites ws d')"

definition transaction :: "(db \<Rightarrow> exn + db) list \<Rightarrow> db \<Rightarrow> (exn + unit) \<times> db" where
  "transaction ws d = (case runWrites ws d of Inl e \<Rightarrow> (Inl e, d) | Inr d' \<Rightarrow> (Inr (), d'))"

text \<open>A write whose returned row the caller does not use.\<close>

definition dropRow :: "(db \<Rightarrow> exn + 'a \<times> db) \<Rightarrow> db \<Rightarrow> exn + db" where
  "dropRow w d = (case w d of Inl e \<Rightarrow> Inl e | Inr (_, d') \<Rightarrow> Inr d')"

section \<open>OpenAI client (services/openai)\<close>

subsection \<open>Formatting and chunking\<close>

fun join :: "string \<Rightarrow> string list \<Rightarrow> string" where
  "join sep [] = []"
| "join sep [x] = x"
| "join sep (x # y # ys) = x @ sep @ join sep (y # ys)"

definition formatSegment :: "TranscriptSegment \<Rightarrow> string" where
  "formatSegment segment = ''['' @ seg_timestamp segment @ ''] '' @ seg_text segment"

definition formatTranscriptForAI :: "TranscriptSegment list \<Rightarrow> string" where
  "formatTranscriptForAI tr = join [CHR 0x0A] (map formatSegment tr)"

text \<open>
  The \<open>for\<close> loop of \<open>chunkTranscript\<close>, with its three variables \<open>chunks\<close>,
  \<open>currentChunk\<close> and \<open>currentLength\<close>; the first equation is the code after the loop.
\<close>

fun chunkLoop ::
  "nat \<Rightarrow> TranscriptSegment list \<Rightarrow> TranscriptSegment list list \<Rightarrow> TranscriptSegment list \<Rightarrow> nat
     \<Rightarrow> TranscriptSegment list list" where
  "chunkLoop maxChunkLength [] chunks currentChunk currentLength =
     (if length currentChunk > 0 then chunks @ [currentChunk] else chunks)"
| "chunkLoop maxChunkLength (segment # rest) chunks currentChunk currentLength =
     (let segmentLength = length (seg_text segment) in
      if currentLength + segmentLength > maxChunkLength \<and> length currentChunk > 0
      then chunkLoop maxChunkLength rest (chunks @ [currentChunk]) [segment] segmentLength
      else chunkLoop maxChunkLength rest chunks (currentChunk @ [segment]) (currentLength + segmentLength))"

definition chunkTranscript :: "TranscriptSegment list \<Rightarrow> TranscriptSegment list list" where
  "chunkTranscript tr = chunkLoop (MAX_TRANSCRIPT_LENGTH div 3) tr [] [] 0"

text \<open>The concatenated text length of a chunk.\<close>

definition chunkTextLength :: "TranscriptSegment list \<Rightarrow> nat" where
  "chunkTextLength c = sum_list (map (\<lambda>s. length (seg_text s)) c)"

subsection \<open>The provider and its payload\<close>

text \<open>
  A parsed JSON value.  Of a number only its being zero is ever tested.  An object lists
  its members, one per key.
\<close>

datatype json =
    JNull | JBool bool | JNumber int | JString string
  | JArray "json list" | JObject "(string \<times> json) list"

text \<open>JavaScript truthiness, property access, \<open>Array.isArray\<close> and \<open>typeof x === 'string'\<close>;
  \<open>None\<close> is \<open>undefined\<close>.\<close>

fun truthy :: "json \<Rightarrow> bool" where
  "truthy JNull = False"
| "truthy (JBool b) = b"
| "truthy (JNumber n) = (n \<noteq> 0)"
| "truthy (JString s) = (s \<noteq> [])"
| "truthy (JArray _) = True"
| "truthy (JObject _) = True"

fun getProp :: "json \<Rightarrow> string \<Rightarrow> json option" where
  "getProp (JObject members) k = map_of members k"
| "getProp _ k = None"

fun isArray :: "json option \<Rightarrow> bool" where
  "isArray (Some (JArray _)) = True"
| "isArray _ = False"

fun elements :: "json option \<Rightarrow> json list" where
  "elements (Some (JArray xs)) = xs"
| "elements _ = []"

fun isString :: "json option \<Rightarrow> bool" where
  "isString (Some (JString _)) = True"
| "isString _ = False"

fun stringOf :: "json option \<Rightarrow> string" where
  "stringOf (Some (JString s)) = s"
| "stringOf _ = []"

definition validateSummaryResponse :: "json \<Rightarrow> bool" where
  "validateSummaryResponse response \<longleftrightarrow>
     truthy response \<and>
     isArray (getProp response ''keyPoints'') \<and>
     length (elements (getProp response ''keyPoints'')) > 0 \<and>
     list_all (\<lambda>point. isString (Some point)) (elements (getProp response ''keyPoints'')) \<and>
     isString (getProp response ''fullSummary'') \<and>
     length (stringOf (getProp response ''fullSummary'')) > 0 \<and>
     isArray (getProp response ''tags'') \<and>
     list_all (\<lambda>tag. isString (Some tag)) (elements (getProp response ''tags''))"

text \<open>The validated value read at its TypeScript type \<open>OpenAISummaryResponse\<close>.\<close>

definition asSummaryResponse :: "json \<Rightarrow> OpenAISummaryResponse" where
  "asSummaryResponse response =
     \<lparr>keyPoints = map (\<lambda>point. stringOf (Some point)) (elements (getProp response ''keyPoints'')),
      fullSummary = stringOf (getProp response ''fullSummary''),
      tags = map (\<lambda>tag. stringOf (Some tag)) (elements (getProp response ''tags''))\<rparr>"

text \<open>
  One \<open>chat.completions.create\<close> round trip.  The request is the prompt, given by the
  function that builds it and that function's arguments (the fixed template text is left
  out).  The reply is \<open>choices[0]?.message?.content\<close>, or what the call threw.
\<close>

datatype request =
    SummaryPrompt string VideoMetadata
  | ChunkSummaryPrompt string nat nat
  | FinalSummaryPrompt string VideoMetadata

datatype reply = Completion "string option" | Threw exn

type_synonym provider = "request \<Rightarrow> reply"

text \<open>\<open>JSON.parse\<close> is a parameter: \<open>None\<close> is its \<open>SyntaxError\<close>.\<close>

type_synonym parser = "string \<Rightarrow> json option"

subsection \<open>generateSummary of the OpenAI client\<close>

text \<open>The loop over the chunks: a chunk whose reply has no content adds nothing.\<close>

fun summarizeChunks ::
  "provider \<Rightarrow> nat \<Rightarrow> nat \<Rightarrow> TranscriptSegment list list \<Rightarrow> string list \<Rightarrow> exn + string list" where
  "summarizeChunks prov totalChunks i [] chunkSummaries = Inr chunkSummaries"
| "summarizeChunks prov totalChunks i (chunk # rest) chunkSummaries =
     (case prov (ChunkSummaryPrompt (formatTranscriptForAI chunk) (i + 1) totalChunks) of
        Threw e \<Rightarrow> Inl e
      | Completion None \<Rightarrow> summarizeChunks prov totalChunks (i + 1) rest chunkSummaries
      | Completion (Some chunkSummary) \<Rightarrow>
          summarizeChunks prov totalChunks (i + 1) rest
            (if chunkSummary \<noteq> [] then chunkSummaries @ [chunkSummary] else chunkSummaries))"

definition ok :: "'a \<Rightarrow> 'a ServiceResponse" where
  "ok x = \<lparr>success = True, data = Some x, error = None\<rparr>"

definition generateSummaryFromChunks ::
  "parser \<Rightarrow> provider \<Rightarrow> TranscriptSegment list \<Rightarrow> VideoMetadata
     \<Rightarrow> exn + OpenAISummaryResponse ServiceResponse" where
  "generateSummaryFromChunks parse prov tr meta =
     (case
        (let chunks = chunkTranscript tr in
         case summarizeChunks prov (length chunks) 0 chunks [] of
           Inl e \<Rightarrow> Inl e
         | Inr chunkSummaries \<Rightarrow>
            (case prov (FinalSummaryPrompt (join [CHR 0x0A, CHR 0x0A] chunkSummaries) meta) of
               Threw e \<Rightarrow> Inl e
             | Completion None \<Rightarrow> Inl (AppError ''Empty response from OpenAI'' 500)
             | Completion (Some finalResponseText) \<Rightarrow>
                 if finalResponseText = [] then Inl (AppError ''Empty response from OpenAI'' 500)
                 else (case parse finalResponseText of
                         None \<Rightarrow> Inl (OtherError ''SyntaxError'')
                       | Some summaryData \<Rightarrow>
                           if \<not> validateSummaryResponse summaryData
                           then Inl (AppError ''Invalid summary response structure'' 500)
                           else Inr (ok (asSummaryResponse summaryData)))))
      of Inl e \<Rightarrow> Inl (rethrow ''Summary generation failed'' 500 e)
       | Inr r \<Rightarrow> Inr r)"

text \<open>The \<open>catch\<close> of \<open>generateSummary\<close>.\<close>

fun openaiCatch :: "exn \<Rightarrow> exn" where
  "openaiCatch (AppError m c) = AppError m c"
| "openaiCatch (APIError code) =
     (if code = Some ''insufficient_quota'' then AppError ''AI service quota exceeded'' 503
      else if code = Some ''rate_limit_exceeded'' then AppError ''AI service rate limit exceeded'' 429
      else AppError ''Summary generation failed'' 500)"
| "openaiCatch e = AppError ''Summary generation failed'' 500"

text \<open>
  The chunked branch is \<open>return this.generateSummaryFromChunks(...)\<close> with no \<open>await\<close>:
  what it throws does not pass through this function's \<open>catch\<close>.
\<close>

definition openai_generateSummary ::
  "parser \<Rightarrow> provider \<Rightarrow> TranscriptSegment list \<Rightarrow> VideoMetadata
     \<Rightarrow> exn + OpenAISummaryResponse ServiceResponse" where
  "openai_generateSummary parse prov tr meta =
     (let transcriptText = formatTranscriptForAI tr in
      if length transcriptText > MAX_TRANSCRIPT_LENGTH
      then generateSummaryFromChunks parse prov tr meta
      else
        (case
           (case prov (SummaryPrompt transcriptText meta) of
              Threw e \<Rightarrow> Inl e
            | Completion None \<Rightarrow> Inl (AppError ''Empty response from OpenAI'' 500)
            | Completion (Some responseText) \<Rightarrow>
                if responseText = [] then Inl (AppError ''Empty response from OpenAI'' 500)
                else (case parse responseText of
                        None \<Rightarrow> Inl (AppError ''Invalid response format from AI'' 500)
                      | Some summaryData \<Rightarrow>
                          if \<not> validateSummaryResponse summaryData
                          then Inl (AppError ''Invalid summary response structure'' 500)
                          else Inr (ok (asSummaryResponse summaryData))))
         of Inl e \<Rightarrow> Inl (openaiCatch e)
          | Inr r \<Rightarrow> Inr r))"

section \<open>Summary service (services/summary.ts)\<close>

text \<open>The client the service calls: \<open>openaiService.generateSummary\<close>.\<close>

type_synonym aiClient =
  "TranscriptSegment list \<Rightarrow> VideoMetadata \<Rightarrow> exn + OpenAISummaryResponse ServiceResponse"

text \<open>\<open>toISOString()\<close> keeps the instant; the formatted record carries it as it is.\<close>

definition formatSummary :: "Summary \<Rightarrow> SummaryData" where
  "formatSummary summary =
     \<lparr>sd_id = s_id summary,
      sd_title = s_title summary,
      sd_keyPoints = s_keyPoints summary,
      sd_fullSummary = s_fullSummary summary,
      sd_tags = s_tags summary,
      sd_status = s_status summary,
      sd_videoMetadata =
        \<lparr>vm_videoId = s_videoId summary,
         vm_title = s_videoTitle summary,
         vm_channelName = s_channelName summary,
         vm_duration = s_videoDuration summary,
         vm_url = s_videoUrl summary,
         vm_thumbnailUrl = s_thumbnailUrl summary\<rparr>,
      sd_transcript = s_transcript summary,
      sd_transcriptText = s_transcriptText summary,
      sd_createdAt = s_createdAt summary,
      sd_updatedAt = s_updatedAt summary,
      sd_saved = True\<rparr>"

definition formatTranscriptText :: "TranscriptSegment list \<Rightarrow> string" where
  "formatTranscriptText tr = join '' '' (map seg_text tr)"

text \<open>\<open>x || d\<close> on an optional string, and the truthiness of one.\<close>

fun orElse :: "string option \<Rightarrow> string \<Rightarrow> string" where
  "orElse None d = d"
| "orElse (Some x) d = (if x = [] then d else x)"

fun present :: "string option \<Rightarrow> bool" where
  "present None = False"
| "present (Some x) = (x \<noteq> [])"

text \<open>\<open>x ?? d\<close>\<close>

fun nullish :: "'a option \<Rightarrow> 'a \<Rightarrow> 'a" where
  "nullish None d = d"
| "nullish (Some x) d = x"

subsection \<open>generateSummary\<close>

text \<open>The \<open>data\<close> of the \<open>prisma.summary.create\<close> call.\<close>

definition pendingSummaryRow :: "env \<Rightarrow> string \<Rightarrow> GenerateSummaryRequest \<Rightarrow> Summary" where
  "pendingSummaryRow en userId dat =
     \<lparr>s_id = newId en,
      s_title = vm_title (videoMetadata dat),
      s_keyPoints = [],
      s_fullSummary = [],
      s_tags = [],
      s_status = PROCESSING,
      s_videoId = vm_videoId (videoMetadata dat),
      s_videoTitle = vm_title (videoMetadata dat),
      s_channelName = vm_channelName (videoMetadata dat),
      s_videoDuration = vm_duration (videoMetadata dat),
      s_videoUrl = vm_url (videoMetadata dat),
      s_thumbnailUrl = vm_thumbnailUrl (videoMetadata dat),
      s_transcript = Some (transcript dat),
      s_transcriptText = Some (formatTranscriptText (transcript dat)),
      s_userId = userId,
      s_createdAt = now en,
      s_updatedAt = now en\<rparr>"

text \<open>The inner \<open>try\<close> block: the call to the client, the check of what it returned, the
  update to \<open>COMPLETED\<close>.\<close>

definition aiAttempt ::
  "env \<Rightarrow> aiClient \<Rightarrow> GenerateSummaryRequest \<Rightarrow> Summary \<Rightarrow> db
     \<Rightarrow> (exn + SummaryData ServiceResponse) \<times> db" where
  "aiAttempt en ai dat pendingSummary d0 =
     (let d = logEvent OpenAICalled d0 in
      case ai (transcript dat) (videoMetadata dat) of
        Inl e \<Rightarrow> (Inl e, d)
      | Inr aiResult \<Rightarrow>
          (case data aiResult of
             None \<Rightarrow> (Inl (AppError (orElse (error aiResult) ''AI summary generation failed'') 500), d)
           | Some r \<Rightarrow>
               if \<not> success aiResult
               then (Inl (AppError (orElse (error aiResult) ''AI summary generation failed'') 500), d)
               else (case summary_update en (s_id pendingSummary)
                            (\<lambda>s. s\<lparr>s_keyPoints := keyPoints r, s_fullSummary := fullSummary r,
                                   s_tags := tags r, s_status := COMPLETED\<rparr>)
                            (SummaryStatusSet (s_id pendingSummary) COMPLETED) d of
                       Inl e \<Rightarrow> (Inl e, d)
                     | Inr (completedSummary, d') \<Rightarrow> (Inr (ok (formatSummary completedSummary)), d'))))"

text \<open>The \<open>catch (aiError)\<close> block's transaction.\<close>

definition compensate :: "config \<Rightarrow> env \<Rightarrow> string \<Rightarrow> string \<Rightarrow> db \<Rightarrow> (exn + unit) \<times> db" where
  "compensate cfg en summaryId userId =
     transaction
       [dropRow (summary_update en summaryId (\<lambda>s. s\<lparr>s_status := FAILED\<rparr>)
                   (SummaryStatusSet summaryId FAILED)),
        user_update en userId (\<lambda>u. u\<lparr>u_credits := u_credits u + credits_perSummary cfg\<rparr>)
          (CreditsChanged userId (credits_perSummary cfg))]"

definition generateSummary ::
  "config \<Rightarrow> env \<Rightarrow> aiClient \<Rightarrow> string \<Rightarrow> GenerateSummaryRequest \<Rightarrow> db
     \<Rightarrow> (exn + SummaryData ServiceResponse) \<times> db" where
  "generateSummary cfg en ai userId dat d =
     (case
        (case user_findUnique userId d of
           None \<Rightarrow> (Inl (AppError ''User not found'' 404), d)
         | Some user \<Rightarrow>
             if u_credits user < credits_perSummary cfg
             then (Inl (AppError ''Insufficient credits'' 402), d)
             else
               (case summary_findFirst
                       (\<lambda>s. s_userId s = userId \<and> s_videoId s = vm_videoId (videoMetadata dat)
                              \<and> s_status s = COMPLETED) d of
                  Some existingSummary \<Rightarrow> (Inr (ok (formatSummary existingSummary)), d)
                | None \<Rightarrow>
                    (case summary_create (pendingSummaryRow en userId dat) d of
                       Inl e \<Rightarrow> (Inl e, d)
                     | Inr (pendingSummary, d1) \<Rightarrow>
                         (case user_update en userId
                                 (\<lambda>u. u\<lparr>u_credits := u_credits u - credits_perSummary cfg\<rparr>)
                                 (CreditsChanged userId (- credits_perSummary cfg)) d1 of
                            Inl e \<Rightarrow> (Inl e, d1)
                          | Inr d2 \<Rightarrow>
                              (case aiAttempt en ai dat pendingSummary d2 of
                                 (Inr r, d3) \<Rightarrow> (Inr r, d3)
                               | (Inl aiError, d3) \<Rightarrow>
                                   (case compensate cfg en (s_id pendingSummary) userId d3 of
                                      (Inl e, d4) \<Rightarrow> (Inl e, d4)
                                    | (Inr _, d4) \<Rightarrow> (Inl aiError, d4)))))))
      of (Inl e, d') \<Rightarrow> (Inl (rethrow ''Summary generation failed'' 500 e), d')
       | (Inr r, d') \<Rightarrow> (Inr r, d'))"

subsection \<open>saveSummary\<close>

text \<open>\<open>Partial<CreateSummaryData> & { id?: string }\<close>, the fields the function reads.\<close>

record SaveSummaryInput =
  in_id :: "string option"
  in_title :: "string option"
  in_keyPoints :: "string list option"
  in_fullSummary :: "string option"
  in_tags :: "string list option"
  in_videoId :: "string option"
  in_videoTitle :: "string option"
  in_channelName :: "string option"
  in_videoDuration :: "string option"
  in_videoUrl :: "string option"
  in_thumbnailUrl :: "string option"
  in_transcript :: "TranscriptSegment list option"
  in_transcriptText :: "string option"

definition savedSummaryRow :: "env \<Rightarrow> string \<Rightarrow> SaveSummaryInput \<Rightarrow> Summary" where
  "savedSummaryRow en userId summaryData =
     \<lparr>s_id = newId en,
      s_title = orElse (in_title summaryData) (nullish (in_videoTitle summaryData) []),
      s_keyPoints = nullish (in_keyPoints summaryData) [],
      s_fullSummary = orElse (in_fullSummary summaryData) [],
      s_tags = nullish (in_tags summaryData) [],
      s_status = COMPLETED,
      s_videoId = nullish (in_videoId summaryData) [],
      s_videoTitle = nullish (in_videoTitle summaryData) [],
      s_channelName = nullish (in_channelName summaryData) [],
      s_videoDuration = in_videoDuration summaryData,
      s_videoUrl = orElse (in_videoUrl summaryData)
                     (''https://youtube.com/watch?v='' @ nullish (in_videoId summaryData) []),
      s_thumbnailUrl = in_thumbnailUrl summaryData,
      s_transcript = in_transcript summaryData,
      s_transcriptText = in_transcriptText summaryData,
      s_userId = userId,
      s_createdAt = now en,
      s_updatedAt = now en\<rparr>"

definition saveSummary ::
  "env \<Rightarrow> string \<Rightarrow> SaveSummaryInput \<Rightarrow> db \<Rightarrow> (exn + SummaryData ServiceResponse) \<times> db" where
  "saveSummary en userId summaryData d =
     (case
        (if present (in_id summaryData)
         then
           (case summary_findFirst
                   (\<lambda>s. s_id s = nullish (in_id summaryData) [] \<and> s_userId s = userId) d of
              None \<Rightarrow> (Inl (AppError ''Summary not found'' 404), d)
            | Some summary \<Rightarrow>
                (case summary_update en (nullish (in_id summaryData) [])
                        (\<lambda>s. s\<lparr>s_title := nullish (in_title summaryData) (s_title summary),
                               s_keyPoints := nullish (in_keyPoints summaryData) (s_keyPoints summary),
                               s_fullSummary := nullish (in_fullSummary summaryData) (s_fullSummary summary),
                               s_tags := nullish (in_tags summaryData) (s_tags summary)\<rparr>)
                        (SummaryEdited (nullish (in_id summaryData) [])) d of
                   Inl e \<Rightarrow> (Inl e, d)
                 | Inr (summary', d') \<Rightarrow> (Inr (ok (formatSummary summary')), d')))
         else if \<not> present (in_videoId summaryData) \<or> \<not> present (in_videoTitle summaryData)
                 \<or> \<not> present (in_channelName summaryData)
         then (Inl (AppError ''Missing required video metadata'' 400), d)
         else
           (case summary_create (savedSummaryRow en userId summaryData) d of
              Inl e \<Rightarrow> (Inl e, d)
            | Inr (summary, d') \<Rightarrow> (Inr (ok (formatSummary summary)), d')))
      of (Inl e, d') \<Rightarrow> (Inl (rethrow ''Failed to save summary'' 500 e), d')
       | (Inr r, d') \<Rightarrow> (Inr r, d'))"

subsection \<open>cleanupOldSummaries\<close>

text \<open>
  \<open>user.findMany({ where: { summaries: { some: {} } }, select: { id, _count } })\<close>:
  the users with at least one summary, each with the number of its summaries.
\<close>

definition countSummaries :: "string \<Rightarrow> db \<Rightarrow> nat" where
  "countSummaries uid d = length (filter (\<lambda>s. s_userId s = uid) (summaries d))"

definition usersWithManySummaries :: "db \<Rightarrow> (string \<times> nat) list" where
  "usersWithManySummaries d =
     map (\<lambda>u. (u_id u, countSummaries (u_id u) d))
       (filter (\<lambda>u. list_ex (\<lambda>s. s_userId s = u_id u) (summaries d)) (users d))"

text \<open>The body of the \<open>for\<close> loop, for one user and the count read before the loop.\<close>

definition cleanupUser :: "string \<times> nat \<Rightarrow> db \<Rightarrow> db" where
  "cleanupUser user d =
     (if snd user > MAX_SUMMARY_HISTORY
      then (let summariesToDelete = summary_findOldestIds (fst user) (snd user - MAX_SUMMARY_HISTORY) d
            in if length summariesToDelete > 0 then summary_deleteMany summariesToDelete d else d)
      else d)"

fun cleanupLoop :: "(string \<times> nat) list \<Rightarrow> db \<Rightarrow> db" where
  "cleanupLoop [] d = d"
| "cleanupLoop (user # rest) d = cleanupLoop rest (cleanupUser user d)"

definition cleanupOldSummaries :: "db \<Rightarrow> db" where
  "cleanupOldSummaries d = cleanupLoop (usersWithManySummaries d) d"

section \<open>Auth service (services/auth.ts)\<close>

text \<open>\<open>toLowerCase\<close> on the ASCII letters.\<close>

definition lowerChar :: "char \<Rightarrow> char" where
  "lowerChar c =
     (let n = (of_char c :: nat) in if 65 \<le> n \<and> n \<le> 90 then char_of (n + 32) else c)"

definition toLowerCase :: "string \<Rightarrow> string" where
  "toLowerCase s = map lowerChar s"

record LoginDto =
  ld_email :: string
  ld_password :: string

text \<open>
  \<open>supabase.auth.signInWithPassword({ email, password })\<close>: it resolves without an
  error, resolves with one, or throws.
\<close>

datatype signIn = SignedIn | SignInError | SignInThrew

type_synonym supabase = "string \<Rightarrow> string \<Rightarrow> signIn"

text \<open>\<open>formatUser\<close> turns the three dates into ISO strings; the instants stay.\<close>

definition formatUser :: "User \<Rightarrow> User" where
  "formatUser user = user"

definition generateAccessToken :: "config \<Rightarrow> env \<Rightarrow> JwtPayload \<Rightarrow> token" where
  "generateAccessToken cfg en payload =
     jwt_sign (AccessClaims payload) (jwt_secret cfg) (jwt_expiresIn cfg) (now en)"

definition generateRefreshToken :: "config \<Rightarrow> env \<Rightarrow> RefreshTokenPayload \<Rightarrow> token" where
  "generateRefreshToken cfg en payload =
     jwt_sign (RefreshClaims payload) (jwt_refreshSecret cfg) (jwt_refreshExpiresIn cfg) (now en)"

definition sevenDays :: nat where
  "sevenDays = 7 * 24 * 60 * 60 * 1000"

definition fifteenMinutes :: nat where
  "fifteenMinutes = 15 * 60 * 1000"

subsection \<open>login\<close>

definition login ::
  "config \<Rightarrow> env \<Rightarrow> supabase \<Rightarrow> LoginDto \<Rightarrow> db \<Rightarrow> (exn + LoginResponse ServiceResponse) \<times> db" where
  "login cfg en signInWithPassword dat d =
     (case
        (case user_findByEmail (toLowerCase (ld_email dat)) d of
           None \<Rightarrow> (Inl (AppError ''Invalid email or password'' 401), d)
         | Some user \<Rightarrow>
             (let isValidPassword0 =
                    (if present (u_supabaseId user)
                     then (case signInWithPassword (toLowerCase (ld_email dat)) (ld_password dat) of
                             SignedIn \<Rightarrow> True
                           | SignInError \<Rightarrow> False
                           | SignInThrew \<Rightarrow> False)
                     else False);
                  isValidPassword = (if \<not> isValidPassword0 then True else isValidPassword0)
              in
              if \<not> isValidPassword then (Inl (AppError ''Invalid email or password'' 401), d)
              else
                (case user_update en (u_id user) (\<lambda>u. u\<lparr>u_lastLoginAt := Some (now en)\<rparr>)
                        (UserTouched (u_id user)) d of
                   Inl e \<Rightarrow> (Inl e, d)
                 | Inr d1 \<Rightarrow>
                     (let tokenPayload =
                            \<lparr>jp_userId = u_id user, jp_email = u_email user, jp_plan = u_plan user\<rparr>;
                          refreshTokenId = newId en;
                          refreshTokenPayload = \<lparr>rp_userId = u_id user, rp_tokenId = refreshTokenId\<rparr>;
                          accessToken = generateAccessToken cfg en tokenPayload;
                          refreshToken = generateRefreshToken cfg en refreshTokenPayload
                      in
                      case refreshToken_create
                             \<lparr>rt_id = refreshTokenId, rt_token = refreshToken, rt_userId = u_id user,
                              rt_expiresAt = now en + sevenDays, rt_createdAt = now en,
                              rt_revoked = False\<rparr> d1 of
                        Inl e \<Rightarrow> (Inl e, d1)
                      | Inr d2 \<Rightarrow>
                          (Inr (ok \<lparr>lr_user = formatUser user, lr_accessToken = accessToken,
                                    lr_refreshToken = refreshToken,
                                    lr_expiresAt = now en + fifteenMinutes\<rparr>), d2)))))
      of (Inl e, d') \<Rightarrow> (Inl (rethrow ''Login failed'' 500 e), d')
       | (Inr r, d') \<Rightarrow> (Inr r, d'))"

subsection \<open>refreshToken\<close>

text \<open>\<open>payload.tokenId\<close> of what \<open>jwt.verify\<close> returned: \<open>undefined\<close> when the verified
  token carries no such claim.\<close>

fun tokenIdOf :: "claims \<Rightarrow> string option" where
  "tokenIdOf (RefreshClaims p) = Some (rp_tokenId p)"
| "tokenIdOf (AccessClaims p) = None"

definition refreshToken ::
  "config \<Rightarrow> env \<Rightarrow> token \<Rightarrow> db \<Rightarrow> (exn + LoginResponse ServiceResponse) \<times> db" where
  "refreshToken cfg en tok d =
     (case
        (case jwt_verify tok (jwt_refreshSecret cfg) (now en) of
           Inl e \<Rightarrow> (Inl e, d)
         | Inr payload \<Rightarrow>
             (case refreshToken_findUnique (tokenIdOf payload) tok d of
                None \<Rightarrow> (Inl (AppError ''Invalid or expired refresh token'' 401), d)
              | Some storedToken \<Rightarrow>
                  if rt_expiresAt storedToken < now en
                  then (Inl (AppError ''Invalid or expired refresh token'' 401), d)
                  else
                    (case user_findUnique (rt_userId storedToken) d of
                       None \<Rightarrow> (Inl (OtherError ''TypeError''), d)
                     | Some user \<Rightarrow>
                         (let tokenPayload =
                                \<lparr>jp_userId = u_id user, jp_email = u_email user, jp_plan = u_plan user\<rparr>;
                              newRefreshTokenId = newId en;
                              newRefreshTokenPayload =
                                \<lparr>rp_userId = u_id user, rp_tokenId = newRefreshTokenId\<rparr>;
                              accessToken = generateAccessToken cfg en tokenPayload;
                              newRefreshToken = generateRefreshToken cfg en newRefreshTokenPayload
                          in
                          case transaction
                                 [refreshToken_revoke (rt_id storedToken),
                                  refreshToken_create
                                    \<lparr>rt_id = newRefreshTokenId, rt_token = newRefreshToken,
                                     rt_userId = u_id user, rt_expiresAt = now en + sevenDays,
                                     rt_createdAt = now en, rt_revoked = False\<rparr>] d of
                            (Inl e, d') \<Rightarrow> (Inl e, d')
                          | (Inr _, d') \<Rightarrow>
                              (Inr (ok \<lparr>lr_user = formatUser user, lr_accessToken = accessToken,
                                        lr_refreshToken = newRefreshToken,
                                        lr_expiresAt = now en + fifteenMinutes\<rparr>), d')))))
      of (Inl e, d') \<Rightarrow> (Inl (rethrow ''Token refresh failed'' 401 e), d')
       | (Inr r, d') \<Rightarrow> (Inr r, d'))"

section \<open>Definitions used in the statements and proofs\<close>

subsection \<open>Chunking\<close>

text \<open>A chunk is acceptable when it is not empty and either fits the limit or is one segment.\<close>

definition chunkOk :: "nat \<Rightarrow> TranscriptSegment list \<Rightarrow> bool" where
  "chunkOk m c \<longleftrightarrow> c \<noteq> [] \<and> (chunkTextLength c \<le> m \<or> length c = 1)"

text \<open>Greedy: no chunk could have taken the first segment of the next one.\<close>

definition greedy :: "nat \<Rightarrow> TranscriptSegment list list \<Rightarrow> bool" where
  "greedy m cs \<longleftrightarrow>
     (\<forall>i. Suc i < length cs \<longrightarrow> m < chunkTextLength (cs ! i) + length (seg_text (hd (cs ! Suc i))))"

text \<open>A segment whose text has \<open>n\<close> characters.\<close>

definition longSeg :: "nat \<Rightarrow> TranscriptSegment" where
  "longSeg n = \<lparr>seg_timestamp = ''0:00'', seg_text = replicate n (CHR ''a''),
               seg_startSeconds = None, seg_endSeconds = None\<rparr>"

subsection \<open>Intermediate states of generateSummary\<close>

text \<open>The database after the first two writes of generateSummary.\<close>

definition afterCreate :: "env \<Rightarrow> string \<Rightarrow> GenerateSummaryRequest \<Rightarrow> db \<Rightarrow> db" where
  "afterCreate en userId dat d =
     logEvent (SummaryCreated (newId en) PROCESSING)
       (d\<lparr>summaries := summaries d @ [pendingSummaryRow en userId dat]\<rparr>)"

definition afterDebit :: "config \<Rightarrow> env \<Rightarrow> string \<Rightarrow> GenerateSummaryRequest \<Rightarrow> db \<Rightarrow> db" where
  "afterDebit cfg en userId dat d =
     logEvent (CreditsChanged userId (- credits_perSummary cfg))
       ((afterCreate en userId dat d)
          \<lparr>users := map (\<lambda>u. if u_id u = userId
                              then (u\<lparr>u_credits := u_credits u - credits_perSummary cfg\<rparr>)\<lparr>u_updatedAt := now en\<rparr>
                              else u) (users d)\<rparr>)"

text \<open>What the inner try block throws for an outcome of the client, if it throws.\<close>

fun thrownInAttempt :: "exn + OpenAISummaryResponse ServiceResponse \<Rightarrow> exn option" where
  "thrownInAttempt (Inl e) = Some e"
| "thrownInAttempt (Inr aiResult) =
     (if \<not> success aiResult \<or> data aiResult = None
      then Some (AppError (orElse (error aiResult) ''AI summary generation failed'') 500)
      else None)"

text \<open>Both writes of the compensating transaction, applied to a database.\<close>

definition compensated :: "config \<Rightarrow> env \<Rightarrow> string \<Rightarrow> string \<Rightarrow> db \<Rightarrow> db \<Rightarrow> bool" where
  "compensated cfg en summaryId userId d0 d1 \<longleftrightarrow>
     (\<exists>s\<in>set (summaries d0). s_id s = summaryId) \<and> (\<exists>u\<in>set (users d0). u_id u = userId) \<and>
     summaries d1 = map (\<lambda>s. if s_id s = summaryId then s\<lparr>s_status := FAILED, s_updatedAt := now en\<rparr> else s)
                      (summaries d0) \<and>
     users d1 = map (\<lambda>u. if u_id u = userId
                          then u\<lparr>u_credits := u_credits u + credits_perSummary cfg, u_updatedAt := now en\<rparr>
                          else u) (users d0)"

subsection \<open>The payload of the OpenAI client\<close>

text \<open>
  The structural predicate in the spec's words: the payload is an object whose
  \<open>keyPoints\<close> is a non-empty array of strings, whose \<open>fullSummary\<close> is a non-empty string
  and whose \<open>tags\<close> is an array of strings, possibly empty.
\<close>

definition payloadWellFormed :: "json \<Rightarrow> bool" where
  "payloadWellFormed j \<longleftrightarrow>
     (\<exists>members points summary tagList.
        j = JObject members \<and>
        map_of members ''keyPoints'' = Some (JArray (map JString points)) \<and> points \<noteq> [] \<and>
        map_of members ''fullSummary'' = Some (JString summary) \<and> summary \<noteq> [] \<and>
        map_of members ''tags'' = Some (JArray (map JString tagList)))"

text \<open>
  The request whose reply carries the payload: the single prompt for a short transcript, the
  final prompt over the chunk summaries for a long one (none when a chunk call threw).
\<close>

definition payloadRequest :: "provider \<Rightarrow> TranscriptSegment list \<Rightarrow> VideoMetadata \<Rightarrow> request option" where
  "payloadRequest prov tr meta =
     (if length (formatTranscriptForAI tr) > MAX_TRANSCRIPT_LENGTH
      then (case summarizeChunks prov (length (chunkTranscript tr)) 0 (chunkTranscript tr) [] of
              Inl e \<Rightarrow> None
            | Inr chunkSummaries \<Rightarrow>
                Some (FinalSummaryPrompt (join [CHR 0x0A, CHR 0x0A] chunkSummaries) meta))
      else Some (SummaryPrompt (formatTranscriptForAI tr) meta))"

subsection \<open>Token issuance\<close>

text \<open>The row \<open>refreshToken\<close> and \<open>login\<close> store for the token they issue to a user.\<close>

definition issuedRow :: "config \<Rightarrow> env \<Rightarrow> User \<Rightarrow> RefreshToken" where
  "issuedRow cfg en user =
     \<lparr>rt_id = newId en,
      rt_token = generateRefreshToken cfg en \<lparr>rp_userId = u_id user, rp_tokenId = newId en\<rparr>,
      rt_userId = u_id user, rt_expiresAt = now en + sevenDays, rt_createdAt = now en,
      rt_revoked = False\<rparr>"

definition issuedResponse :: "config \<Rightarrow> env \<Rightarrow> User \<Rightarrow> LoginResponse" where
  "issuedResponse cfg en user =
     \<lparr>lr_user = formatUser user,
      lr_accessToken = generateAccessToken cfg en
                         \<lparr>jp_userId = u_id user, jp_email = u_email user, jp_plan = u_plan user\<rparr>,
      lr_refreshToken = generateRefreshToken cfg en \<lparr>rp_userId = u_id user, rp_tokenId = newId en\<rparr>,
      lr_expiresAt = now en + fifteenMinutes\<rparr>"

text \<open>The refresh tokens table after the row \<open>tid\<close> is revoked.\<close>

definition revokedRows :: "string \<Rightarrow> RefreshToken list \<Rightarrow> RefreshToken list" where
  "revokedRows tid rows = map (\<lambda>r. if rt_id r = tid then r\<lparr>rt_revoked := True\<rparr> else r) rows"

subsection \<open>Retention\<close>

text \<open>The summaries of a user, in table order.\<close>

definition summariesOf :: "string \<Rightarrow> db \<Rightarrow> Summary list" where
  "summariesOf uid d = filter (\<lambda>s. s_userId s = uid) (summaries d)"

text \<open>What one pass of the loop body leaves of a user's summaries \<open>xs\<close>, for the count \<open>c\<close>
  read before the loop.\<close>

definition afterCleanup :: "nat \<Rightarrow> Summary list \<Rightarrow> Summary list" where
  "afterCleanup c xs =
     (if c > MAX_SUMMARY_HISTORY
      then (let summariesToDelete = map s_id (take (c - MAX_SUMMARY_HISTORY) (sort_key s_createdAt xs))
            in if length summariesToDelete > 0
               then filter (\<lambda>s. s_id s \<notin> set summariesToDelete) xs else xs)
      else xs)"

subsection \<open>Example values\<close>

definition exampleConfig :: config where
  "exampleConfig = \<lparr>credits_perSummary = 1, jwt_secret = ''access-secret'', jwt_expiresIn = 900000,
                     jwt_refreshSecret = ''refresh-secret'', jwt_refreshExpiresIn = 604800000\<rparr>"

definition exampleEnv :: env where
  "exampleEnv = \<lparr>now = 1000, newId = ''s1''\<rparr>"

definition exampleUser :: "int \<Rightarrow> User" where
  "exampleUser c =
     \<lparr>u_id = ''u1'', u_email = ''ann@example.com'', u_name = None, u_avatar = None, u_plan = FREE,
      u_credits = c, u_supabaseId = None, u_createdAt = 0, u_updatedAt = 0, u_lastLoginAt = None,
      u_emailVerified = False\<rparr>"

definition exampleRequest :: GenerateSummaryRequest where
  "exampleRequest =
     \<lparr>transcript = [\<lparr>seg_timestamp = ''0:00'', seg_text = ''hello'', seg_startSeconds = None,
                     seg_endSeconds = None\<rparr>],
      videoMetadata = \<lparr>vm_videoId = ''abc'', vm_title = ''A video'', vm_channelName = ''A channel'',
                       vm_duration = None, vm_url = ''https://youtube.com/watch?v=abc'',
                       vm_thumbnailUrl = None\<rparr>\<rparr>"

definition exampleSummary :: Summary where
  "exampleSummary =
     \<lparr>s_id = ''s0'', s_title = ''A video'', s_keyPoints = [''point''], s_fullSummary = ''summary'',
      s_tags = [], s_status = COMPLETED, s_videoId = ''abc'', s_videoTitle = ''A video'',
      s_channelName = ''A channel'', s_videoDuration = None,
      s_videoUrl = ''https://youtube.com/watch?v=abc'', s_thumbnailUrl = None, s_transcript = None,
      s_transcriptText = None, s_userId = ''u1'', s_createdAt = 10, s_updatedAt = 20\<rparr>"

definition exampleDb :: "int \<Rightarrow> Summary list \<Rightarrow> db" where
  "exampleDb c ss = \<lparr>users = [exampleUser c], summaries = ss, refreshTokens = [], journal = []\<rparr>"

definition exampleInput :: SaveSummaryInput where
  "exampleInput =
     \<lparr>in_id = None, in_title = Some ''My notes'', in_keyPoints = Some [''point''],
      in_fullSummary = Some ''summary'', in_tags = None, in_videoId = Some ''abc'',
      in_videoTitle = Some ''A video'', in_channelName = Some ''A channel'', in_videoDuration = None,
      in_videoUrl = None, in_thumbnailUrl = None, in_transcript = None, in_transcriptText = None\<rparr>"

definition exampleText :: string where
  "exampleText = ''{keyPoints:[point],fullSummary:summary,tags:[]}''"

definition examplePayload :: json where
  "examplePayload =
     JObject [(''keyPoints'', JArray [JString ''point'']), (''fullSummary'', JString ''summary''),
              (''tags'', JArray [])]"

definition malformedText :: string where
  "malformedText = ''{keyPoints:[],fullSummary:summary,tags:[]}''"

definition malformedPayload :: json where
  "malformedPayload =
     JObject [(''keyPoints'', JArray []), (''fullSummary'', JString ''summary''), (''tags'', JArray [])]"

definition exampleParse :: parser where
  "exampleParse s =
     (if s = exampleText then Some examplePayload
      else if s = malformedText then Some malformedPayload
      else None)"

definition exampleProvider :: provider where
  "exampleProvider req = Completion (Some exampleText)"

definition malformedProvider :: provider where
  "malformedProvider req = Completion (Some malformedText)"

text \<open>The OpenAI client with a provider that answers well, and with one whose payload has no
  key points.\<close>

definition aiSucceeds :: aiClient where
  "aiSucceeds = openai_generateSummary exampleParse exampleProvider"

definition aiFails :: aiClient where
  "aiFails = openai_generateSummary exampleParse malformedProvider"

definition exampleToken :: token where
  "exampleToken = Signed ''refresh-secret'' (RefreshClaims \<lparr>rp_userId = ''u1'', rp_tokenId = ''t0''\<rparr>) 0 604800000"

definition federatedUser :: User where
  "federatedUser =
     \<lparr>u_id = ''u1'', u_email = ''ann@example.com'', u_name = None, u_avatar = None, u_plan = FREE,
      u_credits = 10, u_supabaseId = Some ''sb-1'', u_createdAt = 0, u_updatedAt = 0,
      u_lastLoginAt = None, u_emailVerified = False\<rparr>"

definition authDb :: db where
  "authDb =
     \<lparr>users = [federatedUser], summaries = [],
      refreshTokens = [\<lparr>rt_id = ''t0'', rt_token = exampleToken, rt_userId = ''u1'',
                        rt_expiresAt = 604800000, rt_createdAt = 0, rt_revoked = False\<rparr>],
      journal = []\<rparr>"

definition firstEnv :: env where
  "firstEnv = \<lparr>now = 1000, newId = ''t1''\<rparr>"

definition secondEnv :: env where
  "secondEnv = \<lparr>now = 2000, newId = ''t2''\<rparr>"

definition wrongPassword :: supabase where
  "wrongPassword email password = SignInError"

definition exampleLogin :: LoginDto where
  "exampleLogin = \<lparr>ld_email = ''Ann@Example.com'', ld_password = ''not the password''\<rparr>"

text \<open>The \<open>n\<close>-th summary of the example user, created at time \<open>n\<close>.\<close>

definition nthSummary :: "nat \<Rightarrow> Summary" where
  "nthSummary n = exampleSummary\<lparr>s_id := replicate n (CHR ''x''), s_createdAt := n\<rparr>"

definition fullDb :: db where
  "fullDb = \<lparr>users = [exampleUser 10], summaries = map nthSummary [0..<101], refreshTokens = [],
             journal = []\<rparr>"

section \<open>Lists and tables\<close>

lemma find_None_all: "(\<forall>x\<in>set xs. \<not> P x) \<Longrightarrow> find P xs = None"
  by (simp add: find_None_iff)

lemma find_snoc:
  "find P (xs @ [y]) = (case find P xs of Some x \<Rightarrow> Some x | None \<Rightarrow> if P y then Some y else None)"
  by (induction xs) auto

lemma find_Some_ex: "find P xs = Some x \<Longrightarrow> x \<in> set xs \<and> P x"
  by (induction xs) (auto split: if_splits)

lemma list_ex_find: "list_ex P xs \<longleftrightarrow> find P xs \<noteq> None"
  by (induction xs) auto

lemma map_upd_other: "\<forall>x\<in>set xs. \<not> P x \<Longrightarrow> map (\<lambda>x. if P x then f x else x) xs = xs"
  by (induction xs) auto

lemma find_map_upd:
  "find P xs = Some x \<Longrightarrow> (\<And>y. P (f y) = P y) \<Longrightarrow>
   find P (map (\<lambda>y. if P y then f y else y) xs) = Some (f x)"
  by (induction xs) (auto split: if_splits)

lemma find_fresh_row:
  assumes "\<forall>s\<in>set xs. s_id s \<noteq> sid" and "s_id row = sid"
  shows "find (\<lambda>s. s_id s = sid) (xs @ [row]) = Some row"
  using assms by (simp add: find_snoc find_None_all)

lemma update_fresh_row:
  assumes "\<forall>s\<in>set xs. s_id s \<noteq> sid" and "s_id row = sid"
  shows "map (\<lambda>s. if s_id s = sid then f s else s) (xs @ [row]) = xs @ [f row]"
  using assms by (simp add: map_upd_other)

lemma find_user_after_update:
  assumes "find (\<lambda>u. u_id u = uid) xs = Some user" and "\<And>u. u_id (f u) = u_id u"
  shows "find (\<lambda>u. u_id u = uid) (map (\<lambda>u. if u_id u = uid then f u else u) xs) = Some (f user)"
  using assms by (induction xs) (auto split: if_splits)

section \<open>generateSummary: the steps before the client is called\<close>

lemma pendingSummaryRow_sel [simp]:
  "s_id (pendingSummaryRow en userId dat) = newId en"
  "s_userId (pendingSummaryRow en userId dat) = userId"
  "s_status (pendingSummaryRow en userId dat) = PROCESSING"
  "s_videoId (pendingSummaryRow en userId dat) = vm_videoId (videoMetadata dat)"
  by (simp_all add: pendingSummaryRow_def)

lemma create_pending:
  assumes "user_findUnique userId d = Some user"
    and "\<forall>s\<in>set (summaries d). s_id s \<noteq> newId en"
  shows "summary_create (pendingSummaryRow en userId dat) d
           = Inr (pendingSummaryRow en userId dat, afterCreate en userId dat d)"
proof -
  have "list_ex (\<lambda>u. u_id u = userId) (users d)"
    using assms(1) by (simp add: list_ex_find user_findUnique_def)
  moreover have "\<not> list_ex (\<lambda>s. s_id s = newId en) (summaries d)"
    using assms(2) by (simp add: list_ex_iff)
  ultimately show ?thesis
    by (simp add: summary_create_def afterCreate_def)
qed

lemma debit_after_create:
  assumes "user_findUnique userId d = Some user"
  shows "user_update en userId (\<lambda>u. u\<lparr>u_credits := u_credits u - credits_perSummary cfg\<rparr>)
           (CreditsChanged userId (- credits_perSummary cfg)) (afterCreate en userId dat d)
         = Inr (afterDebit cfg en userId dat d)"
  using assms
  by (simp add: user_update_def afterCreate_def afterDebit_def logEvent_def user_findUnique_def)

lemma afterDebit_sel [simp]:
  "summaries (afterDebit cfg en userId dat d) = summaries d @ [pendingSummaryRow en userId dat]"
  "refreshTokens (afterDebit cfg en userId dat d) = refreshTokens d"
  "journal (afterDebit cfg en userId dat d)
     = journal d @ [SummaryCreated (newId en) PROCESSING, CreditsChanged userId (- credits_perSummary cfg)]"
  "users (afterDebit cfg en userId dat d)
     = map (\<lambda>u. if u_id u = userId
                 then (u\<lparr>u_credits := u_credits u - credits_perSummary cfg\<rparr>)\<lparr>u_updatedAt := now en\<rparr>
                 else u) (users d)"
  by (simp_all add: afterDebit_def afterCreate_def logEvent_def)

lemma compensate_atomic:
  "(fst (compensate cfg en sid uid d0) = Inr () \<and> compensated cfg en sid uid d0 (snd (compensate cfg en sid uid d0)))
   \<or> ((\<exists>e. fst (compensate cfg en sid uid d0) = Inl e) \<and> snd (compensate cfg en sid uid d0) = d0)"
  by (auto simp: compensate_def transaction_def dropRow_def summary_update_def user_update_def
        compensated_def logEvent_def find_None_iff
      split: option.splits sum.splits dest: find_Some_ex)

lemma attempt_fails:
  assumes "thrownInAttempt (ai (transcript dat) (videoMetadata dat)) = Some e"
  shows "aiAttempt en ai dat row d = (Inl e, logEvent OpenAICalled d)"
  using assms
  by (cases "ai (transcript dat) (videoMetadata dat)")
     (auto simp: aiAttempt_def Let_def split: option.splits if_splits)

lemma rethrow_chunks_AppError: "\<exists>m c. rethrow msg code e = AppError m c"
  by (cases e) simp_all

lemma openaiCatch_AppError: "\<exists>m c. openaiCatch e = AppError m c"
  by (cases e) simp_all

lemma openai_failure_is_AppError:
  "openai_generateSummary parse prov tr meta = Inl e \<Longrightarrow> \<exists>m c. e = AppError m c"
  using rethrow_chunks_AppError [of "''Summary generation failed''" 500] openaiCatch_AppError
  by (auto simp: openai_generateSummary_def generateSummaryFromChunks_def Let_def
      split: if_splits sum.splits reply.splits option.splits)

section \<open>Charge once\<close>

text \<open>
  Claim C1.  A user with at least \<open>credits_perSummary\<close> credits and no \<open>COMPLETED\<close>
  summary for the requested video, when the client succeeds, ends with exactly
  \<open>credits_perSummary\<close> fewer credits and exactly one \<open>COMPLETED\<close> summary for that user
  and video.  The journal shows the order: the \<open>PROCESSING\<close> row is created, then the
  credits are debited, then the client is called, then the row is completed.  The id of the
  new row is one no summary has.
\<close>

theorem generateSummary_charge_once:
  assumes user: "user_findUnique userId d = Some user"
    and credits: "credits_perSummary cfg \<le> u_credits user"
    and nodup: "\<forall>s\<in>set (summaries d). \<not> (s_userId s = userId
                  \<and> s_videoId s = vm_videoId (videoMetadata dat) \<and> s_status s = COMPLETED)"
    and fresh: "\<forall>s\<in>set (summaries d). s_id s \<noteq> newId en"
    and ai: "ai (transcript dat) (videoMetadata dat) = Inr aiResult"
    and succ: "success aiResult" and dat: "data aiResult = Some r"
  shows "\<exists>completed d' user'.
           generateSummary cfg en ai userId dat d = (Inr (ok (formatSummary completed)), d')
         \<and> user_findUnique userId d' = Some user'
         \<and> u_credits user' = u_credits user - credits_perSummary cfg
         \<and> filter (\<lambda>s. s_userId s = userId \<and> s_videoId s = vm_videoId (videoMetadata dat)
                         \<and> s_status s = COMPLETED) (summaries d') = [completed]
         \<and> s_keyPoints completed = keyPoints r \<and> s_fullSummary completed = fullSummary r
         \<and> s_tags completed = tags r
         \<and> summaries d' = summaries d @ [completed]
         \<and> journal d' = journal d @
             [SummaryCreated (newId en) PROCESSING,
              CreditsChanged userId (- credits_perSummary cfg),
              OpenAICalled,
              SummaryStatusSet (newId en) COMPLETED]"
proof -
  let ?row = "pendingSummaryRow en userId dat"
  let ?d2 = "afterDebit cfg en userId dat d"
  let ?f = "\<lambda>s. (s\<lparr>s_keyPoints := keyPoints r, s_fullSummary := fullSummary r,
                     s_tags := tags r, s_status := COMPLETED\<rparr>)\<lparr>s_updatedAt := now en\<rparr>"
  let ?completed = "?f ?row"
  let ?dA = "logEvent OpenAICalled ?d2"
  let ?d3 = "logEvent (SummaryStatusSet (newId en) COMPLETED)
               (?dA\<lparr>summaries := summaries d @ [?completed]\<rparr>)"
  let ?P = "\<lambda>s. s_userId s = userId \<and> s_videoId s = vm_videoId (videoMetadata dat) \<and> s_status s = COMPLETED"
  have none: "summary_findFirst ?P d = None"
    using nodup by (simp add: summary_findFirst_def find_None_iff)
  have sA: "summaries ?dA = summaries d @ [?row]"
    by (simp add: logEvent_def)
  have upd: "summary_update en (newId en)
               (\<lambda>s. s\<lparr>s_keyPoints := keyPoints r, s_fullSummary := fullSummary r,
                       s_tags := tags r, s_status := COMPLETED\<rparr>)
               (SummaryStatusSet (newId en) COMPLETED) ?dA = Inr (?completed, ?d3)"
    unfolding summary_update_def sA
    using update_fresh_row [where xs = "summaries d" and sid = "newId en" and row = ?row and f = ?f]
      find_fresh_row [where xs = "summaries d" and sid = "newId en" and row = ?row] fresh
    by simp
  have att: "aiAttempt en ai dat ?row ?d2 = (Inr (ok (formatSummary ?completed)), ?d3)"
    using ai succ dat upd by (simp add: aiAttempt_def Let_def)
  have gen: "generateSummary cfg en ai userId dat d = (Inr (ok (formatSummary ?completed)), ?d3)"
    using user credits none create_pending [OF user fresh, of dat]
      debit_after_create [OF user, of en cfg dat] att
    by (simp add: generateSummary_def)
  have usr: "user_findUnique userId ?d3
      = Some ((user\<lparr>u_credits := u_credits user - credits_perSummary cfg\<rparr>)\<lparr>u_updatedAt := now en\<rparr>)"
    using find_user_after_update [of userId "users d" user
        "\<lambda>u. (u\<lparr>u_credits := u_credits u - credits_perSummary cfg\<rparr>)\<lparr>u_updatedAt := now en\<rparr>"] user
    by (simp add: user_findUnique_def logEvent_def)
  have flt: "filter ?P (summaries d @ [?completed]) = [?completed]"
    using nodup by (simp add: pendingSummaryRow_def)
  have "s_keyPoints ?completed = keyPoints r \<and> s_fullSummary ?completed = fullSummary r
       \<and> s_tags ?completed = tags r" by simp
  moreover have "summaries ?d3 = summaries d @ [?completed]" by (simp add: logEvent_def)
  moreover have "journal ?d3 = journal d @
             [SummaryCreated (newId en) PROCESSING,
              CreditsChanged userId (- credits_perSummary cfg),
              OpenAICalled,
              SummaryStatusSet (newId en) COMPLETED]" by (simp add: logEvent_def)
  ultimately show ?thesis using gen usr flt
    by (intro exI [of _ ?completed] exI [of _ ?d3]
        exI [of _ "(user\<lparr>u_credits := u_credits user - credits_perSummary cfg\<rparr>)\<lparr>u_updatedAt := now en\<rparr>"])
       simp
qed

theorem generateSummary_charge_once_witness:
  "user_findUnique ''u1'' (exampleDb 10 []) = Some (exampleUser 10)
   \<and> credits_perSummary exampleConfig \<le> u_credits (exampleUser 10)
   \<and> (\<exists>d' user'.
         fst (generateSummary exampleConfig exampleEnv aiSucceeds ''u1'' exampleRequest (exampleDb 10 []))
           = Inr (ok (formatSummary (hd (summaries d'))))
       \<and> snd (generateSummary exampleConfig exampleEnv aiSucceeds ''u1'' exampleRequest (exampleDb 10 [])) = d'
       \<and> user_findUnique ''u1'' d' = Some user' \<and> u_credits user' = 9
       \<and> length (filter (\<lambda>s. s_userId s = ''u1'' \<and> s_videoId s = ''abc'' \<and> s_status s = COMPLETED)
                   (summaries d')) = 1
       \<and> journal d' = [SummaryCreated ''s1'' PROCESSING, CreditsChanged ''u1'' (- 1), OpenAICalled,
                        SummaryStatusSet ''s1'' COMPLETED])"
proof -
  have h1: "user_findUnique ''u1'' (exampleDb 10 []) = Some (exampleUser 10)"
    by (simp add: user_findUnique_def exampleDb_def exampleUser_def)
  have h2: "credits_perSummary exampleConfig \<le> u_credits (exampleUser 10)"
    by (simp add: exampleUser_def exampleConfig_def)
  have h3: "\<forall>s\<in>set (summaries (exampleDb 10 [])). \<not> (s_userId s = ''u1''
                  \<and> s_videoId s = vm_videoId (videoMetadata exampleRequest) \<and> s_status s = COMPLETED)"
    by (simp add: exampleDb_def)
  have h4: "\<forall>s\<in>set (summaries (exampleDb 10 [])). s_id s \<noteq> newId exampleEnv"
    by (simp add: exampleDb_def)
  have h5: "aiSucceeds (transcript exampleRequest) (videoMetadata exampleRequest)
      = Inr (ok \<lparr>keyPoints = [''point''], fullSummary = ''summary'', tags = []\<rparr>)"
    by (simp add: aiSucceeds_def openai_generateSummary_def exampleRequest_def
        formatTranscriptForAI_def formatSegment_def MAX_TRANSCRIPT_LENGTH_def exampleProvider_def
        exampleParse_def exampleText_def validateSummaryResponse_def examplePayload_def
        asSummaryResponse_def Let_def)
  have h6: "success (ok \<lparr>keyPoints = [''point''], fullSummary = ''summary'', tags = []\<rparr>)"
    by (simp add: ok_def)
  have h7: "data (ok \<lparr>keyPoints = [''point''], fullSummary = ''summary'', tags = []\<rparr>)
      = Some \<lparr>keyPoints = [''point''], fullSummary = ''summary'', tags = []\<rparr>"
    by (simp add: ok_def)
  from generateSummary_charge_once
         [where ai = aiSucceeds and dat = exampleRequest and en = exampleEnv, OF h1 h2 h3 h4 h5 h6 h7]
  obtain completed d' user' where
    g: "generateSummary exampleConfig exampleEnv aiSucceeds ''u1'' exampleRequest (exampleDb 10 [])
          = (Inr (ok (formatSummary completed)), d')"
    and u: "user_findUnique ''u1'' d' = Some user'"
    and c: "u_credits user' = u_credits (exampleUser 10) - credits_perSummary exampleConfig"
    and f: "filter (\<lambda>s. s_userId s = ''u1'' \<and> s_videoId s = vm_videoId (videoMetadata exampleRequest)
                         \<and> s_status s = COMPLETED) (summaries d') = [completed]"
    and s: "summaries d' = summaries (exampleDb 10 []) @ [completed]"
    and j: "journal d' = journal (exampleDb 10 []) @
             [SummaryCreated (newId exampleEnv) PROCESSING,
              CreditsChanged ''u1'' (- credits_perSummary exampleConfig),
              OpenAICalled,
              SummaryStatusSet (newId exampleEnv) COMPLETED]"
    by blast
  have "hd (summaries d') = completed" using s by (simp add: exampleDb_def)
  moreover have "u_credits user' = 9" using c by (simp add: exampleUser_def exampleConfig_def)
  moreover have "length (filter (\<lambda>s. s_userId s = ''u1'' \<and> s_videoId s = ''abc'' \<and> s_status s = COMPLETED)
                   (summaries d')) = 1"
    using f by (simp add: exampleRequest_def)
  moreover have "journal d' = [SummaryCreated ''s1'' PROCESSING, CreditsChanged ''u1'' (- 1), OpenAICalled,
                        SummaryStatusSet ''s1'' COMPLETED]"
    using j by (simp add: exampleDb_def exampleEnv_def exampleConfig_def)
  ultimately show ?thesis using h1 h2 g u by simp
qed

section \<open>Compensation\<close>

text \<open>
  Claim C2.  When the attempt fails with an \<open>AppError\<close> (the client throws one, or returns
  no data or \<open>success = false\<close>), generateSummary re-raises that error, every credit
  balance is what it was before the call, and the new summary is left \<open>FAILED\<close>.  The
  status flip and the refund are one transaction: on any database it applies both writes or
  leaves the database as it was.  Every failure of the OpenAI client is an \<open>AppError\<close>, a
  malformed payload included.
\<close>

theorem generateSummary_compensation:
  assumes user: "user_findUnique userId d = Some user"
    and credits: "credits_perSummary cfg \<le> u_credits user"
    and nodup: "\<forall>s\<in>set (summaries d). \<not> (s_userId s = userId
                  \<and> s_videoId s = vm_videoId (videoMetadata dat) \<and> s_status s = COMPLETED)"
    and fresh: "\<forall>s\<in>set (summaries d). s_id s \<noteq> newId en"
    and fails: "thrownInAttempt (ai (transcript dat) (videoMetadata dat)) = Some (AppError m c)"
  shows "(\<exists>failed d' user'.
           generateSummary cfg en ai userId dat d = (Inl (AppError m c), d')
         \<and> user_findUnique userId d' = Some user' \<and> u_credits user' = u_credits user
         \<and> map u_credits (users d') = map u_credits (users d)
         \<and> summaries d' = summaries d @ [failed]
         \<and> s_id failed = newId en \<and> s_userId failed = userId \<and> s_status failed = FAILED
         \<and> journal d' = journal d @
             [SummaryCreated (newId en) PROCESSING,
              CreditsChanged userId (- credits_perSummary cfg),
              OpenAICalled,
              SummaryStatusSet (newId en) FAILED,
              CreditsChanged userId (credits_perSummary cfg)])
       \<and> (\<forall>sid uid d0.
             (fst (compensate cfg en sid uid d0) = Inr ()
                \<and> compensated cfg en sid uid d0 (snd (compensate cfg en sid uid d0)))
           \<or> ((\<exists>e. fst (compensate cfg en sid uid d0) = Inl e)
                \<and> snd (compensate cfg en sid uid d0) = d0))
       \<and> (\<forall>parse prov tr meta e. openai_generateSummary parse prov tr meta = Inl e
              \<longrightarrow> (\<exists>m' c'. e = AppError m' c'))"
proof -
  let ?row = "pendingSummaryRow en userId dat"
  let ?d2 = "afterDebit cfg en userId dat d"
  let ?dA = "logEvent OpenAICalled ?d2"
  let ?f = "\<lambda>s. (s\<lparr>s_status := FAILED\<rparr>)\<lparr>s_updatedAt := now en\<rparr>"
  let ?failed = "?f ?row"
  let ?debit = "\<lambda>u. (u\<lparr>u_credits := u_credits u - credits_perSummary cfg\<rparr>)\<lparr>u_updatedAt := now en\<rparr>"
  let ?refund = "\<lambda>u. (u\<lparr>u_credits := u_credits u + credits_perSummary cfg\<rparr>)\<lparr>u_updatedAt := now en\<rparr>"
  let ?us2 = "map (\<lambda>u. if u_id u = userId then ?debit u else u) (users d)"
  let ?us4 = "map (\<lambda>u. if u_id u = userId then ?refund u else u) ?us2"
  let ?d3 = "logEvent (SummaryStatusSet (newId en) FAILED) (?dA\<lparr>summaries := summaries d @ [?failed]\<rparr>)"
  let ?d4 = "logEvent (CreditsChanged userId (credits_perSummary cfg)) (?d3\<lparr>users := ?us4\<rparr>)"
  let ?P = "\<lambda>s. s_userId s = userId \<and> s_videoId s = vm_videoId (videoMetadata dat) \<and> s_status s = COMPLETED"
  have none: "summary_findFirst ?P d = None"
    using nodup by (simp add: summary_findFirst_def find_None_iff)
  have att: "aiAttempt en ai dat ?row ?d2 = (Inl (AppError m c), ?dA)"
    using attempt_fails [of ai dat "AppError m c" en ?row ?d2] fails by simp
  have sA: "summaries ?dA = summaries d @ [?row]" by (simp add: logEvent_def)
  have w1: "dropRow (summary_update en (newId en) (\<lambda>s. s\<lparr>s_status := FAILED\<rparr>)
               (SummaryStatusSet (newId en) FAILED)) ?dA = Inr ?d3"
    unfolding summary_update_def dropRow_def sA
    using update_fresh_row [where xs = "summaries d" and sid = "newId en" and row = ?row and f = ?f]
      find_fresh_row [where xs = "summaries d" and sid = "newId en" and row = ?row] fresh
    by simp
  have f2: "find (\<lambda>u. u_id u = userId) ?us2 = Some (?debit user)"
    using find_user_after_update [of userId "users d" user ?debit] user
    by (simp add: user_findUnique_def)
  have u3: "users ?d3 = ?us2" by (simp add: logEvent_def)
  have w2: "user_update en userId (\<lambda>u. u\<lparr>u_credits := u_credits u + credits_perSummary cfg\<rparr>)
               (CreditsChanged userId (credits_perSummary cfg)) ?d3 = Inr ?d4"
    unfolding user_update_def u3 using f2 by simp
  have comp: "compensate cfg en (newId en) userId ?dA = (Inr (), ?d4)"
    using w1 w2 by (simp add: compensate_def transaction_def)
  have gen: "generateSummary cfg en ai userId dat d = (Inl (AppError m c), ?d4)"
    using user credits none create_pending [OF user fresh, of dat]
      debit_after_create [OF user, of en cfg dat] att comp
    by (simp add: generateSummary_def)
  have f4: "find (\<lambda>u. u_id u = userId) ?us4 = Some (?refund (?debit user))"
    using find_user_after_update [of userId ?us2 "?debit user" ?refund] f2 by simp
  have usr: "user_findUnique userId ?d4 = Some (?refund (?debit user))"
    using f4 by (simp add: user_findUnique_def logEvent_def)
  have cr: "u_credits (?refund (?debit user)) = u_credits user" by simp
  have bal: "map u_credits (users ?d4) = map u_credits (users d)"
    by (simp add: logEvent_def comp_def)
  have sm: "summaries ?d4 = summaries d @ [?failed]" by (simp add: logEvent_def)
  have fl: "s_id ?failed = newId en \<and> s_userId ?failed = userId \<and> s_status ?failed = FAILED" by simp
  have jr: "journal ?d4 = journal d @
             [SummaryCreated (newId en) PROCESSING,
              CreditsChanged userId (- credits_perSummary cfg),
              OpenAICalled,
              SummaryStatusSet (newId en) FAILED,
              CreditsChanged userId (credits_perSummary cfg)]" by (simp add: logEvent_def)
  have part1: "\<exists>failed d' user'.
           generateSummary cfg en ai userId dat d = (Inl (AppError m c), d')
         \<and> user_findUnique userId d' = Some user' \<and> u_credits user' = u_credits user
         \<and> map u_credits (users d') = map u_credits (users d)
         \<and> summaries d' = summaries d @ [failed]
         \<and> s_id failed = newId en \<and> s_userId failed = userId \<and> s_status failed = FAILED
         \<and> journal d' = journal d @
             [SummaryCreated (newId en) PROCESSING,
              CreditsChanged userId (- credits_perSummary cfg),
              OpenAICalled,
              SummaryStatusSet (newId en) FAILED,
              CreditsChanged userId (credits_perSummary cfg)]"
    using gen usr cr bal sm fl jr by blast
  have part2: "\<forall>sid uid d0.
             (fst (compensate cfg en sid uid d0) = Inr ()
                \<and> compensated cfg en sid uid d0 (snd (compensate cfg en sid uid d0)))
           \<or> ((\<exists>e. fst (compensate cfg en sid uid d0) = Inl e)
                \<and> snd (compensate cfg en sid uid d0) = d0)"
    by (intro allI) (rule compensate_atomic)
  have part3: "\<forall>parse prov tr meta e. openai_generateSummary parse prov tr meta = Inl e
              \<longrightarrow> (\<exists>m' c'. e = AppError m' c')"
    using openai_failure_is_AppError by blast
  from part1 part2 part3 show ?thesis by (intro conjI)
qed

theorem generateSummary_compensation_witness:
  "user_findUnique ''u1'' (exampleDb 10 []) = Some (exampleUser 10)
   \<and> credits_perSummary exampleConfig \<le> u_credits (exampleUser 10)
   \<and> thrownInAttempt (aiFails (transcript exampleRequest) (videoMetadata exampleRequest))
        = Some (AppError ''Invalid summary response structure'' 500)
   \<and> (\<exists>failed d' user'.
          generateSummary exampleConfig exampleEnv aiFails ''u1'' exampleRequest (exampleDb 10 [])
            = (Inl (AppError ''Invalid summary response structure'' 500), d')
        \<and> user_findUnique ''u1'' d' = Some user' \<and> u_credits user' = 10
        \<and> summaries d' = [failed] \<and> s_status failed = FAILED
        \<and> journal d' = [SummaryCreated ''s1'' PROCESSING, CreditsChanged ''u1'' (- 1), OpenAICalled,
                         SummaryStatusSet ''s1'' FAILED, CreditsChanged ''u1'' 1])"
proof -
  have h1: "user_findUnique ''u1'' (exampleDb 10 []) = Some (exampleUser 10)"
    by (simp add: user_findUnique_def exampleDb_def exampleUser_def)
  have h2: "credits_perSummary exampleConfig \<le> u_credits (exampleUser 10)"
    by (simp add: exampleUser_def exampleConfig_def)
  have h3: "\<forall>s\<in>set (summaries (exampleDb 10 [])). \<not> (s_userId s = ''u1''
                  \<and> s_videoId s = vm_videoId (videoMetadata exampleRequest) \<and> s_status s = COMPLETED)"
    by (simp add: exampleDb_def)
  have h4: "\<forall>s\<in>set (summaries (exampleDb 10 [])). s_id s \<noteq> newId exampleEnv"
    by (simp add: exampleDb_def)
  have h5: "thrownInAttempt (aiFails (transcript exampleRequest) (videoMetadata exampleRequest))
        = Some (AppError ''Invalid summary response structure'' 500)"
    by (simp add: aiFails_def openai_generateSummary_def exampleRequest_def
        formatTranscriptForAI_def formatSegment_def MAX_TRANSCRIPT_LENGTH_def malformedProvider_def
        exampleParse_def exampleText_def malformedText_def validateSummaryResponse_def
        malformedPayload_def Let_def)
  from generateSummary_compensation
         [where ai = aiFails and dat = exampleRequest and en = exampleEnv, OF h1 h2 h3 h4 h5]
  obtain failed d' user' where
    g: "generateSummary exampleConfig exampleEnv aiFails ''u1'' exampleRequest (exampleDb 10 [])
          = (Inl (AppError ''Invalid summary response structure'' 500), d')"
    and u: "user_findUnique ''u1'' d' = Some user'"
    and c: "u_credits user' = u_credits (exampleUser 10)"
    and s: "summaries d' = summaries (exampleDb 10 []) @ [failed]"
    and f: "s_status failed = FAILED"
    and j: "journal d' = journal (exampleDb 10 []) @
             [SummaryCreated (newId exampleEnv) PROCESSING,
              CreditsChanged ''u1'' (- credits_perSummary exampleConfig),
              OpenAICalled,
              SummaryStatusSet (newId exampleEnv) FAILED,
              CreditsChanged ''u1'' (credits_perSummary exampleConfig)]"
    by blast
  have "u_credits user' = 10" using c by (simp add: exampleUser_def)
  moreover have "summaries d' = [failed]" using s by (simp add: exampleDb_def)
  moreover have "journal d' = [SummaryCreated ''s1'' PROCESSING, CreditsChanged ''u1'' (- 1), OpenAICalled,
                         SummaryStatusSet ''s1'' FAILED, CreditsChanged ''u1'' 1]"
    using j by (simp add: exampleDb_def exampleEnv_def exampleConfig_def)
  ultimately show ?thesis using h1 h2 h5 g u f by blast
qed

section \<open>Idempotent replay\<close>

lemma generateSummary_replay_find:
  assumes "user_findUnique userId d = Some user"
    and "credits_perSummary cfg \<le> u_credits user"
    and "summary_findFirst (\<lambda>s. s_userId s = userId \<and> s_videoId s = vm_videoId (videoMetadata dat)
                              \<and> s_status s = COMPLETED) d = Some existing"
  shows "generateSummary cfg en ai userId dat d = (Inr (ok (formatSummary existing)), d)"
  using assms by (simp add: generateSummary_def)

text \<open>
  Claim C3 as stated fails: the credit check comes before the lookup of an existing summary,
  so a user with fewer credits than \<open>credits_perSummary\<close> gets \<open>Insufficient credits\<close> (402)
  even though a \<open>COMPLETED\<close> summary for the video exists.
\<close>

theorem generateSummary_replay_counterexample:
  "exampleSummary \<in> set (summaries (exampleDb 0 [exampleSummary]))
   \<and> s_userId exampleSummary = ''u1''
   \<and> s_videoId exampleSummary = vm_videoId (videoMetadata exampleRequest)
   \<and> s_status exampleSummary = COMPLETED
   \<and> generateSummary exampleConfig exampleEnv aiSucceeds ''u1'' exampleRequest (exampleDb 0 [exampleSummary])
       = (Inl (AppError ''Insufficient credits'' 402), exampleDb 0 [exampleSummary])"
  by (simp add: generateSummary_def user_findUnique_def exampleDb_def exampleUser_def exampleConfig_def
      exampleSummary_def exampleRequest_def)

text \<open>
  Claim C3, amended.  A user with at least \<open>credits_perSummary\<close> credits who owns a
  \<open>COMPLETED\<close> summary for the video gets a \<open>COMPLETED\<close> summary of theirs for that video
  back (the one they own, when it is the only one), and the database, credits included, is
  unchanged: no charge, no new row, no call to the client.
\<close>

theorem generateSummary_replay:
  assumes "user_findUnique userId d = Some user"
    and "credits_perSummary cfg \<le> u_credits user"
    and "s \<in> set (summaries d)"
    and "s_userId s = userId" and "s_videoId s = vm_videoId (videoMetadata dat)"
    and "s_status s = COMPLETED"
  shows "\<exists>s'. s' \<in> set (summaries d) \<and> s_userId s' = userId
            \<and> s_videoId s' = vm_videoId (videoMetadata dat) \<and> s_status s' = COMPLETED
            \<and> generateSummary cfg en ai userId dat d = (Inr (ok (formatSummary s')), d)
            \<and> ((\<forall>x\<in>set (summaries d). s_userId x = userId \<and> s_videoId x = vm_videoId (videoMetadata dat)
                    \<and> s_status x = COMPLETED \<longrightarrow> x = s) \<longrightarrow> s' = s)"
proof -
  let ?P = "\<lambda>s. s_userId s = userId \<and> s_videoId s = vm_videoId (videoMetadata dat) \<and> s_status s = COMPLETED"
  have "find ?P (summaries d) \<noteq> None"
    using assms(3-6) by (auto simp: find_None_iff)
  then obtain s' where f: "find ?P (summaries d) = Some s'" by blast
  then have in': "s' \<in> set (summaries d) \<and> ?P s'" by (rule find_Some_ex)
  have "generateSummary cfg en ai userId dat d = (Inr (ok (formatSummary s')), d)"
    using generateSummary_replay_find [OF assms(1,2)] f by (simp add: summary_findFirst_def)
  with in' show ?thesis by blast
qed

theorem generateSummary_replay_witness:
  "user_findUnique ''u1'' (exampleDb 9 [exampleSummary]) = Some (exampleUser 9)
   \<and> credits_perSummary exampleConfig \<le> u_credits (exampleUser 9)
   \<and> exampleSummary \<in> set (summaries (exampleDb 9 [exampleSummary]))
   \<and> s_userId exampleSummary = ''u1''
   \<and> s_videoId exampleSummary = vm_videoId (videoMetadata exampleRequest)
   \<and> s_status exampleSummary = COMPLETED
   \<and> generateSummary exampleConfig exampleEnv aiSucceeds ''u1'' exampleRequest (exampleDb 9 [exampleSummary])
       = (Inr (ok (formatSummary exampleSummary)), exampleDb 9 [exampleSummary])"
proof -
  have h1: "user_findUnique ''u1'' (exampleDb 9 [exampleSummary]) = Some (exampleUser 9)"
    by (simp add: user_findUnique_def exampleDb_def exampleUser_def)
  have h2: "credits_perSummary exampleConfig \<le> u_credits (exampleUser 9)"
    by (simp add: exampleUser_def exampleConfig_def)
  have h3: "exampleSummary \<in> set (summaries (exampleDb 9 [exampleSummary]))"
    by (simp add: exampleDb_def)
  have h4: "s_userId exampleSummary = ''u1''" by (simp add: exampleSummary_def)
  have h5: "s_videoId exampleSummary = vm_videoId (videoMetadata exampleRequest)"
    by (simp add: exampleSummary_def exampleRequest_def)
  have h6: "s_status exampleSummary = COMPLETED" by (simp add: exampleSummary_def)
  have only: "\<forall>x\<in>set (summaries (exampleDb 9 [exampleSummary])).
      s_userId x = ''u1'' \<and> s_videoId x = vm_videoId (videoMetadata exampleRequest)
        \<and> s_status x = COMPLETED \<longrightarrow> x = exampleSummary"
    by (simp add: exampleDb_def)
  from generateSummary_replay [where ai = aiSucceeds and en = exampleEnv, OF h1 h2 h3 h4 h5 h6] only
  have "generateSummary exampleConfig exampleEnv aiSucceeds ''u1'' exampleRequest (exampleDb 9 [exampleSummary])
       = (Inr (ok (formatSummary exampleSummary)), exampleDb 9 [exampleSummary])"
    by blast
  with h1 h2 h3 h4 h5 h6 show ?thesis by simp
qed

section \<open>Insufficient credits\<close>

text \<open>
  Claim C4.  For a user whose credits are below \<open>credits_perSummary\<close>, generateSummary
  fails with \<open>Insufficient credits\<close> (402) and the database is unchanged: no summary row,
  the same credits, no effect in the journal.
\<close>

theorem generateSummary_insufficient_credits:
  assumes "user_findUnique userId d = Some user"
    and "u_credits user < credits_perSummary cfg"
  shows "generateSummary cfg en ai userId dat d = (Inl (AppError ''Insufficient credits'' 402), d)"
  using assms by (simp add: generateSummary_def)

theorem generateSummary_insufficient_credits_witness:
  "user_findUnique ''u1'' (exampleDb 0 []) = Some (exampleUser 0)
   \<and> u_credits (exampleUser 0) < credits_perSummary exampleConfig
   \<and> generateSummary exampleConfig exampleEnv aiSucceeds ''u1'' exampleRequest (exampleDb 0 [])
       = (Inl (AppError ''Insufficient credits'' 402), exampleDb 0 [])"
proof -
  have h1: "user_findUnique ''u1'' (exampleDb 0 []) = Some (exampleUser 0)"
    by (simp add: user_findUnique_def exampleDb_def exampleUser_def)
  have h2: "u_credits (exampleUser 0) < credits_perSummary exampleConfig"
    by (simp add: exampleUser_def exampleConfig_def)
  from h1 h2 generateSummary_insufficient_credits [OF h1 h2] show ?thesis by simp
qed

section \<open>Chunking a long transcript\<close>

lemma chunkTextLength_snoc [simp]:
  "chunkTextLength (c @ [s]) = chunkTextLength c + length (seg_text s)"
  by (simp add: chunkTextLength_def)

lemma chunkTextLength_Nil [simp]: "chunkTextLength [] = 0"
  by (simp add: chunkTextLength_def)

lemma chunkTextLength_single [simp]: "chunkTextLength [s] = length (seg_text s)"
  by (simp add: chunkTextLength_def)

lemma greedy_push:
  assumes "greedy m xs" and "xs \<noteq> []" and "m < chunkTextLength (last xs) + length (seg_text s)"
  shows "greedy m (xs @ [[s]])"
  unfolding greedy_def
proof (intro allI impI)
  fix i assume i: "Suc i < length (xs @ [[s]])"
  show "m < chunkTextLength ((xs @ [[s]]) ! i) + length (seg_text (hd ((xs @ [[s]]) ! Suc i)))"
  proof (cases "Suc i < length xs")
    case True
    then have "m < chunkTextLength (xs ! i) + length (seg_text (hd (xs ! Suc i)))"
      using assms(1) unfolding greedy_def by blast
    with True show ?thesis by (simp add: nth_append)
  next
    case False
    with i have "Suc i = length xs" by simp
    then have il: "i = length xs - 1" and sl: "Suc i = length xs" by simp_all
    have "(xs @ [[s]]) ! i = last xs"
      using assms(2) il by (simp add: nth_append last_conv_nth)
    moreover have "(xs @ [[s]]) ! Suc i = [s]"
      using sl by (simp add: nth_append)
    ultimately have "(xs @ [[s]]) ! i = last xs" and "(xs @ [[s]]) ! Suc i = [s]" by simp_all
    then show ?thesis using assms(3) by simp
  qed
qed

lemma greedy_grow:
  assumes "greedy m (cs @ [c])" and "c \<noteq> []"
  shows "greedy m (cs @ [c @ [s]])"
  unfolding greedy_def
proof (intro allI impI)
  fix i assume i: "Suc i < length (cs @ [c @ [s]])"
  then have il: "i < length cs" by simp
  from i have "Suc i < length (cs @ [c])" by simp
  then have g: "m < chunkTextLength ((cs @ [c]) ! i) + length (seg_text (hd ((cs @ [c]) ! Suc i)))"
    using assms(1) unfolding greedy_def by blast
  show "m < chunkTextLength ((cs @ [c @ [s]]) ! i) + length (seg_text (hd ((cs @ [c @ [s]]) ! Suc i)))"
  proof (cases "Suc i < length cs")
    case True
    with g il show ?thesis by (simp add: nth_append)
  next
    case False
    with il have "Suc i = length cs" by simp
    with g il assms(2) show ?thesis by (simp add: nth_append)
  qed
qed

lemma chunkLoop_inv:
  assumes "currentLength = chunkTextLength currentChunk"
    and "currentChunk = [] \<longrightarrow> chunks = []"
    and "\<forall>c \<in> set chunks. chunkOk m c"
    and "currentChunk = [] \<or> chunkOk m currentChunk"
    and "greedy m (chunks @ [currentChunk])"
  shows "concat (chunkLoop m segs chunks currentChunk currentLength) = concat chunks @ currentChunk @ segs
       \<and> (\<forall>c \<in> set (chunkLoop m segs chunks currentChunk currentLength). chunkOk m c)
       \<and> greedy m (chunkLoop m segs chunks currentChunk currentLength)"
  using assms
proof (induction segs arbitrary: chunks currentChunk currentLength)
  case Nil
  then show ?case by (auto simp: greedy_def)
next
  case (Cons segment rest)
  show ?case
  proof (cases "currentLength + length (seg_text segment) > m \<and> length currentChunk > 0")
    case True
    have "concat (chunkLoop m rest (chunks @ [currentChunk]) [segment] (length (seg_text segment)))
            = concat (chunks @ [currentChunk]) @ [segment] @ rest
        \<and> (\<forall>c \<in> set (chunkLoop m rest (chunks @ [currentChunk]) [segment] (length (seg_text segment))). chunkOk m c)
        \<and> greedy m (chunkLoop m rest (chunks @ [currentChunk]) [segment] (length (seg_text segment)))"
    proof (rule Cons.IH)
      show "length (seg_text segment) = chunkTextLength [segment]" by simp
      show "[segment] = [] \<longrightarrow> chunks @ [currentChunk] = []" by simp
      show "\<forall>c\<in>set (chunks @ [currentChunk]). chunkOk m c" using Cons.prems True by auto
      show "[segment] = [] \<or> chunkOk m [segment]" by (simp add: chunkOk_def)
      show "greedy m ((chunks @ [currentChunk]) @ [[segment]])"
        using greedy_push [of m "chunks @ [currentChunk]" segment] Cons.prems True by simp
    qed
    moreover have "chunkLoop m (segment # rest) chunks currentChunk currentLength
        = chunkLoop m rest (chunks @ [currentChunk]) [segment] (length (seg_text segment))"
      using True by (simp add: Let_def)
    ultimately show ?thesis by simp
  next
    case False
    have "concat (chunkLoop m rest chunks (currentChunk @ [segment]) (currentLength + length (seg_text segment)))
            = concat chunks @ (currentChunk @ [segment]) @ rest
        \<and> (\<forall>c \<in> set (chunkLoop m rest chunks (currentChunk @ [segment]) (currentLength + length (seg_text segment))). chunkOk m c)
        \<and> greedy m (chunkLoop m rest chunks (currentChunk @ [segment]) (currentLength + length (seg_text segment)))"
    proof (rule Cons.IH)
      show "currentLength + length (seg_text segment) = chunkTextLength (currentChunk @ [segment])"
        using Cons.prems by simp
      show "currentChunk @ [segment] = [] \<longrightarrow> chunks = []" by simp
      show "\<forall>c\<in>set chunks. chunkOk m c" using Cons.prems by simp
      show "currentChunk @ [segment] = [] \<or> chunkOk m (currentChunk @ [segment])"
        using Cons.prems False by (cases "currentChunk = []") (auto simp: chunkOk_def)
      show "greedy m (chunks @ [currentChunk @ [segment]])"
      proof (cases "currentChunk = []")
        case True
        with Cons.prems show ?thesis by (simp add: greedy_def)
      next
        case False
        then show ?thesis using greedy_grow Cons.prems by blast
      qed
    qed
    moreover have "chunkLoop m (segment # rest) chunks currentChunk currentLength
        = chunkLoop m rest chunks (currentChunk @ [segment]) (currentLength + length (seg_text segment))"
      using False by (auto simp: Let_def)
    ultimately show ?thesis by simp
  qed
qed

text \<open>
  Claim C5 as stated fails: a segment is never split, so a segment whose text is longer than
  a third of the threshold is a chunk above the limit.  Here the transcript is one segment of
  50000 characters; its formatted length exceeds the threshold and its only chunk has 50000
  characters of text, more than 16666.
\<close>

theorem chunkTranscript_limit_counterexample:
  "MAX_TRANSCRIPT_LENGTH < length (formatTranscriptForAI [longSeg 50000])
   \<and> chunkTranscript [longSeg 50000] = [[longSeg 50000]]
   \<and> chunkTextLength [longSeg 50000] = 50000
   \<and> \<not> (50000 \<le> MAX_TRANSCRIPT_LENGTH div 3)"
  by (simp add: chunkTranscript_def MAX_TRANSCRIPT_LENGTH_def longSeg_def Let_def
      formatTranscriptForAI_def formatSegment_def)

text \<open>
  Claim C5, amended.  For every transcript, so for every one whose formatted length exceeds
  the threshold, the chunks concatenated are the transcript (contiguous, in order, no segment
  split, dropped or repeated); no chunk is empty; every chunk has at most
  \<open>MAX_TRANSCRIPT_LENGTH div 3\<close> characters of text or is a single segment; and the
  partition is greedy: a chunk together with the first segment of the next chunk is over the
  limit.
\<close>

theorem chunkTranscript_partition:
  "concat (chunkTranscript tr) = tr
   \<and> (\<forall>c \<in> set (chunkTranscript tr).
         c \<noteq> [] \<and> (chunkTextLength c \<le> MAX_TRANSCRIPT_LENGTH div 3 \<or> length c = 1))
   \<and> (\<forall>i. Suc i < length (chunkTranscript tr) \<longrightarrow>
         MAX_TRANSCRIPT_LENGTH div 3
           < chunkTextLength (chunkTranscript tr ! i) + length (seg_text (hd (chunkTranscript tr ! Suc i))))"
  using chunkLoop_inv [of 0 "[]" "[]" "MAX_TRANSCRIPT_LENGTH div 3" tr]
  by (simp add: chunkTranscript_def greedy_def chunkOk_def)

theorem chunkTranscript_partition_witness:
  "MAX_TRANSCRIPT_LENGTH
     < length (formatTranscriptForAI [longSeg 15000, longSeg 15000, longSeg 15000, longSeg 15000])
   \<and> chunkTranscript [longSeg 15000, longSeg 15000, longSeg 15000, longSeg 15000]
        = [[longSeg 15000], [longSeg 15000], [longSeg 15000], [longSeg 15000]]
   \<and> concat (chunkTranscript [longSeg 15000, longSeg 15000, longSeg 15000, longSeg 15000])
        = [longSeg 15000, longSeg 15000, longSeg 15000, longSeg 15000]
   \<and> chunkTextLength [longSeg 15000] \<le> MAX_TRANSCRIPT_LENGTH div 3
   \<and> MAX_TRANSCRIPT_LENGTH div 3 < chunkTextLength [longSeg 15000] + length (seg_text (longSeg 15000))"
proof -
  let ?tr = "[longSeg 15000, longSeg 15000, longSeg 15000, longSeg 15000]"
  have h: "MAX_TRANSCRIPT_LENGTH < length (formatTranscriptForAI ?tr)"
    by (simp add: formatTranscriptForAI_def formatSegment_def longSeg_def MAX_TRANSCRIPT_LENGTH_def)
  have c: "chunkTranscript ?tr = [[longSeg 15000], [longSeg 15000], [longSeg 15000], [longSeg 15000]]"
    by (simp add: chunkTranscript_def MAX_TRANSCRIPT_LENGTH_def longSeg_def Let_def)
  note part = chunkTranscript_partition [of ?tr]
  have p1: "concat (chunkTranscript ?tr) = ?tr"
    and p2: "\<forall>c \<in> set (chunkTranscript ?tr).
         c \<noteq> [] \<and> (chunkTextLength c \<le> MAX_TRANSCRIPT_LENGTH div 3 \<or> length c = 1)"
    and p3: "\<forall>i. Suc i < length (chunkTranscript ?tr) \<longrightarrow>
         MAX_TRANSCRIPT_LENGTH div 3
           < chunkTextLength (chunkTranscript ?tr ! i) + length (seg_text (hd (chunkTranscript ?tr ! Suc i)))"
    using part [THEN conjunct1] part [THEN conjunct2, THEN conjunct1]
      part [THEN conjunct2, THEN conjunct2] by this+
  have q2: "chunkTextLength [longSeg 15000] \<le> MAX_TRANSCRIPT_LENGTH div 3"
  proof -
    have "[longSeg 15000] \<in> set (chunkTranscript ?tr)" unfolding c by simp
    with p2 have "chunkTextLength [longSeg 15000] \<le> MAX_TRANSCRIPT_LENGTH div 3
        \<or> length [longSeg 15000] = 1" by blast
    moreover have "chunkTextLength [longSeg 15000] = 15000"
      by (simp add: longSeg_def)
    ultimately show ?thesis by (simp add: MAX_TRANSCRIPT_LENGTH_def)
  qed
  have q3: "MAX_TRANSCRIPT_LENGTH div 3 < chunkTextLength [longSeg 15000] + length (seg_text (longSeg 15000))"
    using p3 [rule_format, of 0] unfolding c by simp
  from h c p1 q2 q3 show ?thesis by (intro conjI)
qed

section \<open>Validation of the provider's payload\<close>

lemma all_strings: "list_all (\<lambda>p. isString (Some p)) xs \<Longrightarrow> xs = map JString (map (\<lambda>p. stringOf (Some p)) xs)"
proof (induction xs)
  case Nil
  then show ?case by simp
next
  case (Cons x xs)
  then show ?case by (cases x) simp_all
qed

lemma strings_all: "list_all (\<lambda>p. isString (Some p)) (map JString ks)"
  by (induction ks) simp_all

lemma isArray_cases: "isArray v \<Longrightarrow> \<exists>xs. v = Some (JArray xs)"
  by (cases v rule: isArray.cases) simp_all

lemma isString_cases: "isString v \<Longrightarrow> \<exists>s. v = Some (JString s)"
  by (cases v rule: isString.cases) simp_all

lemma validate_wellFormed: "validateSummaryResponse j \<longleftrightarrow> payloadWellFormed j"
proof
  assume v: "validateSummaryResponse j"
  then obtain kp where kp: "getProp j ''keyPoints'' = Some (JArray kp)"
    using isArray_cases unfolding validateSummaryResponse_def by blast
  from v obtain tg where tg: "getProp j ''tags'' = Some (JArray tg)"
    using isArray_cases unfolding validateSummaryResponse_def by blast
  from v obtain fs where fs: "getProp j ''fullSummary'' = Some (JString fs)"
    using isString_cases unfolding validateSummaryResponse_def by blast
  from kp obtain members where j: "j = JObject members" by (cases j) simp_all
  from v kp have kp1: "kp \<noteq> []" and kp2: "list_all (\<lambda>p. isString (Some p)) kp"
    by (simp_all add: validateSummaryResponse_def)
  from v tg have tg2: "list_all (\<lambda>p. isString (Some p)) tg"
    by (simp add: validateSummaryResponse_def)
  from v fs have fs1: "fs \<noteq> []" by (simp add: validateSummaryResponse_def)
  have "map_of members ''keyPoints'' = Some (JArray (map JString (map (\<lambda>p. stringOf (Some p)) kp)))"
    using kp j all_strings [OF kp2] by simp
  moreover have "map (\<lambda>p. stringOf (Some p)) kp \<noteq> []" using kp1 by simp
  moreover have "map_of members ''fullSummary'' = Some (JString fs)" using fs j by simp
  moreover have "map_of members ''tags'' = Some (JArray (map JString (map (\<lambda>p. stringOf (Some p)) tg)))"
    using tg j all_strings [OF tg2] by simp
  ultimately show "payloadWellFormed j"
    unfolding payloadWellFormed_def using j fs1 by blast
next
  assume "payloadWellFormed j"
  then show "validateSummaryResponse j"
    by (auto simp: payloadWellFormed_def validateSummaryResponse_def strings_all)
qed

lemma asSummaryResponse_valid:
  "validateSummaryResponse j \<Longrightarrow>
     keyPoints (asSummaryResponse j) \<noteq> [] \<and> fullSummary (asSummaryResponse j) \<noteq> []"
  by (simp add: validateSummaryResponse_def asSummaryResponse_def)

lemma openai_short:
  assumes "\<not> length (formatTranscriptForAI tr) > MAX_TRANSCRIPT_LENGTH"
  shows "openai_generateSummary parse prov tr meta = Inr r \<longleftrightarrow>
     (\<exists>responseText j. prov (SummaryPrompt (formatTranscriptForAI tr) meta) = Completion (Some responseText)
        \<and> responseText \<noteq> [] \<and> parse responseText = Some j \<and> validateSummaryResponse j
        \<and> r = ok (asSummaryResponse j))"
  using assms
  by (auto simp: openai_generateSummary_def Let_def split: reply.splits option.splits)

lemma openai_long:
  assumes "length (formatTranscriptForAI tr) > MAX_TRANSCRIPT_LENGTH"
  shows "openai_generateSummary parse prov tr meta = Inr r \<longleftrightarrow>
     (\<exists>chunkSummaries responseText j.
        summarizeChunks prov (length (chunkTranscript tr)) 0 (chunkTranscript tr) [] = Inr chunkSummaries
        \<and> prov (FinalSummaryPrompt (join [CHR 0x0A, CHR 0x0A] chunkSummaries) meta)
            = Completion (Some responseText)
        \<and> responseText \<noteq> [] \<and> parse responseText = Some j \<and> validateSummaryResponse j
        \<and> r = ok (asSummaryResponse j))"
  using assms
  by (auto simp: openai_generateSummary_def generateSummaryFromChunks_def Let_def
      split: reply.splits option.splits sum.splits)

lemma openai_success_iff:
  "openai_generateSummary parse prov tr meta = Inr r \<longleftrightarrow>
     (\<exists>req responseText j.
        payloadRequest prov tr meta = Some req \<and> prov req = Completion (Some responseText)
        \<and> responseText \<noteq> [] \<and> parse responseText = Some j \<and> payloadWellFormed j
        \<and> r = ok (asSummaryResponse j))"
proof (cases "length (formatTranscriptForAI tr) > MAX_TRANSCRIPT_LENGTH")
  case True
  show ?thesis
    unfolding openai_long [OF True] validate_wellFormed payloadRequest_def
    using True by (auto split: sum.splits)
next
  case False
  show ?thesis
    unfolding openai_short [OF False] validate_wellFormed payloadRequest_def
    using False by auto
qed

text \<open>
  Claim C6.  The OpenAI client's generateSummary returns success if and only if the reply
  that carries the payload has non-empty content that parses to a value satisfying the
  structural predicate of the spec (\<open>payloadWellFormed\<close>).  A success carries exactly the
  parsed, validated payload, with non-empty key points and full summary.  Everything else,
  an empty or unparseable reply included, is a thrown \<open>AppError\<close>.
\<close>

theorem openai_generateSummary_success_iff_valid:
  "((\<exists>r. openai_generateSummary parse prov tr meta = Inr r) \<longleftrightarrow>
      (\<exists>req responseText j.
         payloadRequest prov tr meta = Some req \<and> prov req = Completion (Some responseText)
         \<and> responseText \<noteq> [] \<and> parse responseText = Some j \<and> payloadWellFormed j))
   \<and> (\<forall>r. openai_generateSummary parse prov tr meta = Inr r \<longrightarrow>
         (\<exists>req responseText j.
            payloadRequest prov tr meta = Some req \<and> prov req = Completion (Some responseText)
            \<and> parse responseText = Some j \<and> payloadWellFormed j
            \<and> r = ok (asSummaryResponse j)
            \<and> keyPoints (asSummaryResponse j) \<noteq> [] \<and> fullSummary (asSummaryResponse j) \<noteq> []))
   \<and> (\<forall>e. openai_generateSummary parse prov tr meta = Inl e \<longrightarrow> (\<exists>m c. e = AppError m c))"
proof (intro conjI allI impI)
  show "(\<exists>r. openai_generateSummary parse prov tr meta = Inr r) \<longleftrightarrow>
      (\<exists>req responseText j.
         payloadRequest prov tr meta = Some req \<and> prov req = Completion (Some responseText)
         \<and> responseText \<noteq> [] \<and> parse responseText = Some j \<and> payloadWellFormed j)"
    unfolding openai_success_iff by blast
next
  fix r assume "openai_generateSummary parse prov tr meta = Inr r"
  then obtain req responseText j where
    *: "payloadRequest prov tr meta = Some req" "prov req = Completion (Some responseText)"
       "parse responseText = Some j" "payloadWellFormed j" "r = ok (asSummaryResponse j)"
    unfolding openai_success_iff by blast
  from *(4) have "keyPoints (asSummaryResponse j) \<noteq> [] \<and> fullSummary (asSummaryResponse j) \<noteq> []"
    using asSummaryResponse_valid validate_wellFormed by blast
  with * show "\<exists>req responseText j.
            payloadRequest prov tr meta = Some req \<and> prov req = Completion (Some responseText)
            \<and> parse responseText = Some j \<and> payloadWellFormed j
            \<and> r = ok (asSummaryResponse j)
            \<and> keyPoints (asSummaryResponse j) \<noteq> [] \<and> fullSummary (asSummaryResponse j) \<noteq> []"
    by blast
next
  fix e assume "openai_generateSummary parse prov tr meta = Inl e"
  then show "\<exists>m c. e = AppError m c" by (rule openai_failure_is_AppError)
qed

theorem openai_generateSummary_success_iff_valid_witness:
  "payloadRequest exampleProvider (transcript exampleRequest) (videoMetadata exampleRequest)
     = Some (SummaryPrompt (formatTranscriptForAI (transcript exampleRequest)) (videoMetadata exampleRequest))
   \<and> exampleProvider (SummaryPrompt (formatTranscriptForAI (transcript exampleRequest))
                         (videoMetadata exampleRequest)) = Completion (Some exampleText)
   \<and> exampleText \<noteq> [] \<and> exampleParse exampleText = Some examplePayload
   \<and> payloadWellFormed examplePayload
   \<and> (\<exists>r. openai_generateSummary exampleParse exampleProvider (transcript exampleRequest)
              (videoMetadata exampleRequest) = Inr r)"
proof -
  let ?tr = "transcript exampleRequest" and ?meta = "videoMetadata exampleRequest"
  have h1: "payloadRequest exampleProvider ?tr ?meta = Some (SummaryPrompt (formatTranscriptForAI ?tr) ?meta)"
    by (simp add: payloadRequest_def exampleRequest_def formatTranscriptForAI_def formatSegment_def
        MAX_TRANSCRIPT_LENGTH_def)
  have h2: "exampleProvider (SummaryPrompt (formatTranscriptForAI ?tr) ?meta) = Completion (Some exampleText)"
    by (simp add: exampleProvider_def)
  have h3: "exampleText \<noteq> []" by (simp add: exampleText_def)
  have h4: "exampleParse exampleText = Some examplePayload" by (simp add: exampleParse_def)
  have "validateSummaryResponse examplePayload"
    by (simp add: validateSummaryResponse_def examplePayload_def)
  then have h5: "payloadWellFormed examplePayload" by (simp add: validate_wellFormed)
  have "\<exists>req responseText j.
         payloadRequest exampleProvider ?tr ?meta = Some req
         \<and> exampleProvider req = Completion (Some responseText)
         \<and> responseText \<noteq> [] \<and> exampleParse responseText = Some j \<and> payloadWellFormed j"
    using h1 h2 h3 h4 h5 by blast
  then have "\<exists>r. openai_generateSummary exampleParse exampleProvider ?tr ?meta = Inr r"
    using openai_generateSummary_success_iff_valid
            [of exampleParse exampleProvider ?tr ?meta, THEN conjunct1] by blast
  with h1 h2 h3 h4 h5 show ?thesis by (intro conjI)
qed

section \<open>Refresh token rotation\<close>

lemma refreshToken_unfold:
  "refreshToken cfg en tok d =
     (case jwt_verify tok (jwt_refreshSecret cfg) (now en) of
        Inl e \<Rightarrow> (Inl (rethrow ''Token refresh failed'' 401 e), d)
      | Inr payload \<Rightarrow>
          (case refreshToken_findUnique (tokenIdOf payload) tok d of
             None \<Rightarrow> (Inl (AppError ''Invalid or expired refresh token'' 401), d)
           | Some storedToken \<Rightarrow>
               if rt_expiresAt storedToken < now en
               then (Inl (AppError ''Invalid or expired refresh token'' 401), d)
               else
                 (case user_findUnique (rt_userId storedToken) d of
                    None \<Rightarrow> (Inl (AppError ''Token refresh failed'' 401), d)
                  | Some user \<Rightarrow>
                      (case transaction [refreshToken_revoke (rt_id storedToken),
                                         refreshToken_create (issuedRow cfg en user)] d of
                         (Inl e, d') \<Rightarrow> (Inl (rethrow ''Token refresh failed'' 401 e), d')
                       | (Inr u, d') \<Rightarrow> (Inr (ok (issuedResponse cfg en user)), d')))))"
  by (simp add: refreshToken_def issuedRow_def issuedResponse_def Let_def
      split: sum.splits option.splits prod.splits)

lemma transaction_fail_unchanged:
  "transaction ws d = (Inl e, d') \<Longrightarrow> d' = d"
  by (auto simp: transaction_def split: sum.splits)

lemma revoke_Inr:
  assumes "refreshToken_revoke tid d = Inr dR"
  shows "(\<exists>r\<in>set (refreshTokens d). rt_id r = tid)
       \<and> dR = logEvent (RefreshTokenRevoked tid) (d\<lparr>refreshTokens := revokedRows tid (refreshTokens d)\<rparr>)"
proof (cases "find (\<lambda>r. rt_id r = tid) (refreshTokens d)")
  case None
  with assms show ?thesis by (simp add: refreshToken_revoke_def)
next
  case (Some r)
  then have "r \<in> set (refreshTokens d) \<and> rt_id r = tid" by (rule find_Some_ex)
  moreover from Some assms
  have "dR = logEvent (RefreshTokenRevoked tid) (d\<lparr>refreshTokens := revokedRows tid (refreshTokens d)\<rparr>)"
    by (simp add: refreshToken_revoke_def revokedRows_def)
  ultimately show ?thesis by blast
qed

lemma create_Inr:
  assumes "refreshToken_create row dR = Inr d'"
  shows "\<not> list_ex (\<lambda>r. rt_id r = rt_id row) (refreshTokens dR)
       \<and> \<not> list_ex (\<lambda>r. rt_token r = rt_token row) (refreshTokens dR)
       \<and> d' = logEvent (RefreshTokenCreated (rt_id row)) (dR\<lparr>refreshTokens := refreshTokens dR @ [row]\<rparr>)"
  using assms by (simp add: refreshToken_create_def split: if_splits)

lemma revokedRows_ids: "rt_id ` set (revokedRows tid rows) = rt_id ` set rows"
  by (induction rows) (auto simp: revokedRows_def)

lemma revokedRows_tokens: "rt_token ` set (revokedRows tid rows) = rt_token ` set rows"
  by (induction rows) (auto simp: revokedRows_def)

lemma rotate_success:
  assumes "transaction [refreshToken_revoke tid, refreshToken_create row] d = (Inr u, d')"
  shows "(\<exists>r\<in>set (refreshTokens d). rt_id r = tid)
       \<and> (\<forall>r\<in>set (refreshTokens d). rt_id r \<noteq> rt_id row)
       \<and> (\<forall>r\<in>set (refreshTokens d). rt_token r \<noteq> rt_token row)
       \<and> refreshTokens d' = revokedRows tid (refreshTokens d) @ [row]
       \<and> users d' = users d \<and> summaries d' = summaries d
       \<and> journal d' = journal d @ [RefreshTokenRevoked tid, RefreshTokenCreated (rt_id row)]"
proof -
  from assms obtain dR where r: "refreshToken_revoke tid d = Inr dR"
    and c: "refreshToken_create row dR = Inr d'"
    by (auto simp: transaction_def split: sum.splits)
  note R = revoke_Inr [OF r] and C = create_Inr [OF c]
  have rows: "refreshTokens dR = revokedRows tid (refreshTokens d)"
    using R by (simp add: logEvent_def)
  have "rt_id row \<notin> rt_id ` set (revokedRows tid (refreshTokens d))"
    using C unfolding rows by (auto simp: list_ex_iff)
  then have i1: "\<forall>r\<in>set (refreshTokens d). rt_id r \<noteq> rt_id row"
    unfolding revokedRows_ids by (metis imageI)
  have "rt_token row \<notin> rt_token ` set (revokedRows tid (refreshTokens d))"
    using C unfolding rows by (auto simp: list_ex_iff)
  then have i2: "\<forall>r\<in>set (refreshTokens d). rt_token r \<noteq> rt_token row"
    unfolding revokedRows_tokens by (metis imageI)
  have d1: "refreshTokens d' = refreshTokens dR @ [row]" "users d' = users dR"
    "summaries d' = summaries dR" "journal d' = journal dR @ [RefreshTokenCreated (rt_id row)]"
    using C by (simp_all add: logEvent_def)
  have d2: "users dR = users d" "summaries dR = summaries d"
    "journal dR = journal d @ [RefreshTokenRevoked tid]"
    using R by (simp_all add: logEvent_def)
  show ?thesis using R i1 i2 d1 d2 rows by simp
qed

lemma revokedRows_revoked:
  assumes "x \<in> set (revokedRows tid rows)" and "rt_id x = tid"
  shows "rt_revoked x"
proof -
  from assms(1) have "x \<in> (\<lambda>r. if rt_id r = tid then r\<lparr>rt_revoked := True\<rparr> else r) ` set rows"
    unfolding revokedRows_def by (simp only: set_map)
  then obtain r where x: "x = (if rt_id r = tid then r\<lparr>rt_revoked := True\<rparr> else r)"
    by (rule imageE)
  show ?thesis
  proof (cases "rt_id r = tid")
    case True
    with x show ?thesis by simp
  next
    case False
    with x assms(2) show ?thesis by simp
  qed
qed

lemma find_after_rotation:
  assumes "rt_id row \<noteq> tid"
  shows "find (\<lambda>r. rt_id r = tid \<and> rt_token r = tok \<and> \<not> rt_revoked r)
           (revokedRows tid rows @ [row]) = None"
proof -
  have "\<not> (\<exists>x. x \<in> set (revokedRows tid rows @ [row])
               \<and> (rt_id x = tid \<and> rt_token x = tok \<and> \<not> rt_revoked x))"
  proof
    assume "\<exists>x. x \<in> set (revokedRows tid rows @ [row])
               \<and> (rt_id x = tid \<and> rt_token x = tok \<and> \<not> rt_revoked x)"
    then obtain x where m: "x \<in> set (revokedRows tid rows @ [row])"
      and p: "rt_id x = tid" "\<not> rt_revoked x" by blast
    from m have "x \<in> set (revokedRows tid rows) \<or> x = row" by auto
    then show False
    proof
      assume "x \<in> set (revokedRows tid rows)"
      then show False using revokedRows_revoked p by blast
    next
      assume "x = row"
      with p assms show False by simp
    qed
  qed
  then show ?thesis unfolding find_None_iff .
qed

lemma refreshToken_failure_unchanged:
  "fst (refreshToken cfg en tok d) = Inl e \<Longrightarrow> snd (refreshToken cfg en tok d) = d"
  unfolding refreshToken_unfold
  by (auto split: sum.splits option.splits if_splits prod.splits dest: transaction_fail_unchanged)

lemma jwt_verify_refresh:
  "jwt_verify (Signed secret (RefreshClaims p) issued expires) s t = Inr payload
     \<Longrightarrow> payload = RefreshClaims p"
  by (simp split: if_splits)

lemma jwt_verify_error:
  "jwt_verify tok s t = Inl e \<Longrightarrow> rethrow ''Token refresh failed'' 401 e = AppError ''Token refresh failed'' 401"
  by (cases tok) (auto split: if_splits)

lemma issuedRow_sel [simp]:
  "rt_id (issuedRow cfg en user) = newId en"
  "rt_revoked (issuedRow cfg en user) = False"
  "rt_userId (issuedRow cfg en user) = u_id user"
  "rt_token (issuedRow cfg en user) = lr_refreshToken (issuedResponse cfg en user)"
  by (simp_all add: issuedRow_def issuedResponse_def)

text \<open>
  Claim C7.  After a refresh token (a token whose claims are a refresh payload) has been
  redeemed successfully, redeeming the same token again fails with status 401, at any later
  time and with any new id, and changes nothing.
  The successful redemption revokes the stored row of the token and adds the row of its
  replacement, the token returned to the caller, unrevoked, in one transaction; a
  redemption that fails leaves the database as it was.
\<close>

theorem refreshToken_single_use:
  assumes first: "refreshToken cfg en tok d = (Inr r, d')"
    and kind: "tok = Signed secret (RefreshClaims p) issued expires"
  shows "(\<exists>m. refreshToken cfg en2 tok d' = (Inl (AppError m 401), d'))
       \<and> (\<exists>user. r = ok (issuedResponse cfg en user)
             \<and> refreshTokens d' = revokedRows (rp_tokenId p) (refreshTokens d) @ [issuedRow cfg en user]
             \<and> rt_token (issuedRow cfg en user) = lr_refreshToken (issuedResponse cfg en user)
             \<and> \<not> rt_revoked (issuedRow cfg en user)
             \<and> journal d' = journal d @ [RefreshTokenRevoked (rp_tokenId p), RefreshTokenCreated (newId en)]
             \<and> users d' = users d \<and> summaries d' = summaries d)
       \<and> (\<forall>tok0 d0 e. fst (refreshToken cfg en tok0 d0) = Inl e
              \<longrightarrow> snd (refreshToken cfg en tok0 d0) = d0)"
proof -
  let ?tid = "rp_tokenId p"
  let ?P = "\<lambda>r. rt_id r = ?tid \<and> rt_token r = tok \<and> \<not> rt_revoked r"
  from first obtain payload where v: "jwt_verify tok (jwt_refreshSecret cfg) (now en) = Inr payload"
    unfolding refreshToken_unfold by (auto split: sum.splits)
  with kind have payload: "payload = RefreshClaims p" using jwt_verify_refresh by blast
  from first v payload obtain stored where
    st: "refreshToken_findUnique (Some ?tid) tok d = Some stored"
    unfolding refreshToken_unfold by (auto split: option.splits)
  from first v payload st obtain user where
    us: "user_findUnique (rt_userId stored) d = Some user"
    unfolding refreshToken_unfold by (auto split: option.splits if_splits)
  from first v payload st us have
    tr: "transaction [refreshToken_revoke (rt_id stored), refreshToken_create (issuedRow cfg en user)] d
           = (Inr (), d')"
    and r: "r = ok (issuedResponse cfg en user)"
    unfolding refreshToken_unfold by (auto split: option.splits if_splits sum.splits prod.splits)
  from st have "find ?P (refreshTokens d) = Some stored"
    by (simp add: refreshToken_findUnique_def)
  then have stored: "stored \<in> set (refreshTokens d)" and sid: "rt_id stored = ?tid"
    using find_Some_ex [of ?P "refreshTokens d" stored] by simp_all
  note rot = rotate_success [OF tr]
  have rows: "refreshTokens d' = revokedRows ?tid (refreshTokens d) @ [issuedRow cfg en user]"
    using rot sid by simp
  have jr: "journal d' = journal d @ [RefreshTokenRevoked ?tid, RefreshTokenCreated (newId en)]"
    using rot sid by simp
  have fr: "users d' = users d \<and> summaries d' = summaries d" using rot by simp
  have "\<forall>r\<in>set (refreshTokens d). rt_id r \<noteq> rt_id (issuedRow cfg en user)" using rot by blast
  with stored sid have ne: "rt_id (issuedRow cfg en user) \<noteq> ?tid" by metis
  have gone: "refreshToken_findUnique (Some ?tid) tok d' = None"
    unfolding refreshToken_findUnique_def rows
    using find_after_rotation [OF ne, of tok "refreshTokens d"] by simp
  have second: "\<exists>m. refreshToken cfg en2 tok d' = (Inl (AppError m 401), d')"
  proof (cases "jwt_verify tok (jwt_refreshSecret cfg) (now en2)")
    case (Inl e)
    then show ?thesis
      unfolding refreshToken_unfold using jwt_verify_error [OF Inl] by simp
  next
    case (Inr payload2)
    with kind have "payload2 = RefreshClaims p" using jwt_verify_refresh by blast
    with Inr gone show ?thesis
      unfolding refreshToken_unfold by simp
  qed
  have part2: "\<exists>user. r = ok (issuedResponse cfg en user)
             \<and> refreshTokens d' = revokedRows (rp_tokenId p) (refreshTokens d) @ [issuedRow cfg en user]
             \<and> rt_token (issuedRow cfg en user) = lr_refreshToken (issuedResponse cfg en user)
             \<and> \<not> rt_revoked (issuedRow cfg en user)
             \<and> journal d' = journal d @ [RefreshTokenRevoked (rp_tokenId p), RefreshTokenCreated (newId en)]
             \<and> users d' = users d \<and> summaries d' = summaries d"
    using r rows jr fr by (intro exI [of _ user]) simp
  have part3: "\<forall>tok0 d0 e. fst (refreshToken cfg en tok0 d0) = Inl e
              \<longrightarrow> snd (refreshToken cfg en tok0 d0) = d0"
    using refreshToken_failure_unchanged by blast
  from second part2 part3 show ?thesis by (intro conjI)
qed

theorem refreshToken_single_use_witness:
  "fst (refreshToken exampleConfig firstEnv exampleToken authDb)
     = Inr (ok (issuedResponse exampleConfig firstEnv federatedUser))
   \<and> exampleToken = Signed ''refresh-secret'' (RefreshClaims \<lparr>rp_userId = ''u1'', rp_tokenId = ''t0''\<rparr>) 0 604800000
   \<and> (\<exists>m. refreshToken exampleConfig secondEnv exampleToken
              (snd (refreshToken exampleConfig firstEnv exampleToken authDb))
            = (Inl (AppError m 401), snd (refreshToken exampleConfig firstEnv exampleToken authDb)))"
proof -
  have v: "jwt_verify exampleToken (jwt_refreshSecret exampleConfig) (now firstEnv)
      = Inr (RefreshClaims \<lparr>rp_userId = ''u1'', rp_tokenId = ''t0''\<rparr>)"
    by (simp add: exampleToken_def exampleConfig_def firstEnv_def)
  have f: "refreshToken_findUnique (Some ''t0'') exampleToken authDb
      = Some \<lparr>rt_id = ''t0'', rt_token = exampleToken, rt_userId = ''u1'',
               rt_expiresAt = 604800000, rt_createdAt = 0, rt_revoked = False\<rparr>"
    by (simp add: refreshToken_findUnique_def authDb_def)
  have u: "user_findUnique ''u1'' authDb = Some federatedUser"
    by (simp add: user_findUnique_def authDb_def federatedUser_def)
  have now_first: "now firstEnv = 1000" by (simp add: firstEnv_def)
  have t: "fst (transaction [refreshToken_revoke ''t0'',
                             refreshToken_create (issuedRow exampleConfig firstEnv federatedUser)] authDb)
             = Inr ()"
    by (simp add: transaction_def refreshToken_revoke_def refreshToken_create_def authDb_def
        issuedRow_def firstEnv_def logEvent_def federatedUser_def generateRefreshToken_def jwt_sign_def
        exampleToken_def)
  then obtain dT where
    t': "transaction [refreshToken_revoke ''t0'',
                      refreshToken_create (issuedRow exampleConfig firstEnv federatedUser)] authDb
           = (Inr (), dT)"
    by (metis prod.collapse)
  have h1: "fst (refreshToken exampleConfig firstEnv exampleToken authDb)
     = Inr (ok (issuedResponse exampleConfig firstEnv federatedUser))"
    unfolding refreshToken_unfold v
    by (simp add: f u t' now_first)
  have first: "refreshToken exampleConfig firstEnv exampleToken authDb
     = (Inr (ok (issuedResponse exampleConfig firstEnv federatedUser)),
        snd (refreshToken exampleConfig firstEnv exampleToken authDb))"
    using h1 by (metis prod.collapse)
  have h2: "exampleToken = Signed ''refresh-secret'' (RefreshClaims \<lparr>rp_userId = ''u1'', rp_tokenId = ''t0''\<rparr>) 0 604800000"
    by (simp add: exampleToken_def)
  from refreshToken_single_use [OF first h2, of secondEnv, THEN conjunct1] h1 h2
  show ?thesis by (intro conjI)
qed

section \<open>Retention cleanup\<close>

lemma summariesOf_cleanupUser_own:
  "summariesOf u (cleanupUser (u, c) d) = afterCleanup c (summariesOf u d)"
  by (simp add: cleanupUser_def afterCleanup_def summariesOf_def summary_deleteMany_def
      summary_findOldestIds_def logEvent_def Let_def conj_commute)

lemma distinct_ids_inj:
  assumes "distinct (map s_id xs)" and "a \<in> set xs" and "b \<in> set xs" and "s_id a = s_id b"
  shows "a = b"
  using assms by (meson distinct_map inj_onD)

lemma filter_filter_keep:
  "\<forall>s\<in>set xs. P s \<longrightarrow> Q s \<Longrightarrow> filter P (filter Q xs) = filter P xs"
  by (induction xs) auto

lemma summariesOf_cleanupUser_other:
  assumes "distinct (map s_id (summaries d))" and "v \<noteq> u"
  shows "summariesOf u (cleanupUser (v, c) d) = summariesOf u d"
proof -
  let ?del = "summary_findOldestIds v (c - MAX_SUMMARY_HISTORY) d"
  have keep: "\<forall>s\<in>set (summaries d). s_userId s = u \<longrightarrow> s_id s \<notin> set ?del"
  proof (intro ballI impI notI)
    fix s assume s: "s \<in> set (summaries d)" and su: "s_userId s = u" and "s_id s \<in> set ?del"
    then obtain s' where "s' \<in> set (take (c - MAX_SUMMARY_HISTORY)
                               (sort_key s_createdAt (filter (\<lambda>s. s_userId s = v) (summaries d))))"
      and id: "s_id s' = s_id s"
      unfolding summary_findOldestIds_def by auto
    then have "s' \<in> set (sort_key s_createdAt (filter (\<lambda>s. s_userId s = v) (summaries d)))"
      by (rule_tac in_set_takeD)
    then have s': "s' \<in> set (summaries d)" and sv: "s_userId s' = v" by simp_all
    from distinct_ids_inj [OF assms(1) s' s id] su sv assms(2) show False by simp
  qed
  have "filter (\<lambda>s. s_userId s = u) (filter (\<lambda>s. s_id s \<notin> set ?del) (summaries d))
      = filter (\<lambda>s. s_userId s = u) (summaries d)"
    using keep by (rule filter_filter_keep)
  then show ?thesis
    by (simp add: cleanupUser_def summariesOf_def summary_deleteMany_def logEvent_def Let_def)
qed

lemma cleanupUser_distinct:
  assumes "distinct (map s_id (summaries d))"
  shows "distinct (map s_id (summaries (cleanupUser user d)))"
  using assms
  by (simp add: cleanupUser_def summary_deleteMany_def logEvent_def Let_def distinct_map_filter)

lemma cleanupLoop_unlisted:
  assumes "distinct (map s_id (summaries d))" and "u \<notin> fst ` set us"
  shows "summariesOf u (cleanupLoop us d) = summariesOf u d"
  using assms
proof (induction us arbitrary: d)
  case Nil
  then show ?case by simp
next
  case (Cons user rest)
  obtain v c where user: "user = (v, c)" by (cases user)
  with Cons.prems have "v \<noteq> u" and rest: "u \<notin> fst ` set rest" by auto
  have "summariesOf u (cleanupLoop rest (cleanupUser user d)) = summariesOf u (cleanupUser user d)"
    using Cons.IH [OF cleanupUser_distinct [OF Cons.prems(1)] rest] .
  also have "\<dots> = summariesOf u d"
    unfolding user using summariesOf_cleanupUser_other [OF Cons.prems(1) \<open>v \<noteq> u\<close>] .
  finally show ?case by simp
qed

lemma cleanupLoop_listed:
  assumes "distinct (map s_id (summaries d))" and "distinct (map fst us)" and "(u, c) \<in> set us"
  shows "summariesOf u (cleanupLoop us d) = afterCleanup c (summariesOf u d)"
  using assms
proof (induction us arbitrary: d)
  case Nil
  then show ?case by simp
next
  case (Cons user rest)
  show ?case
  proof (cases "user = (u, c)")
    case True
    with Cons.prems(2) have "u \<notin> fst ` set rest" by simp
    then have "summariesOf u (cleanupLoop rest (cleanupUser user d)) = summariesOf u (cleanupUser user d)"
      using cleanupLoop_unlisted [OF cleanupUser_distinct [OF Cons.prems(1)]] by blast
    then show ?thesis using True by (simp add: summariesOf_cleanupUser_own)
  next
    case False
    with Cons.prems(3) have mem: "(u, c) \<in> set rest" by simp
    obtain v c' where user: "user = (v, c')" by (cases user)
    have "v \<noteq> u"
    proof
      assume "v = u"
      moreover from mem have "u \<in> fst ` set rest" by force
      ultimately show False using Cons.prems(2) user by simp
    qed
    have "summariesOf u (cleanupLoop rest (cleanupUser user d))
        = afterCleanup c (summariesOf u (cleanupUser user d))"
      using Cons.IH [OF cleanupUser_distinct [OF Cons.prems(1)] _ mem] Cons.prems(2) by simp
    also have "\<dots> = afterCleanup c (summariesOf u d)"
      unfolding user using summariesOf_cleanupUser_other [OF Cons.prems(1) \<open>v \<noteq> u\<close>] by simp
    finally show ?thesis by simp
  qed
qed

lemma drop_oldest:
  assumes d: "distinct (map s_id xs)" and n: "n \<le> length xs"
  defines "kept \<equiv> filter (\<lambda>s. s_id s \<notin> set (map s_id (take n (sort_key s_createdAt xs)))) xs"
  shows "length kept = length xs - n"
    and "set kept \<subseteq> set xs"
    and "\<forall>k\<in>set kept. \<forall>g\<in>set xs - set kept. s_createdAt g \<le> s_createdAt k"
proof -
  let ?ys = "sort_key s_createdAt xs"
  let ?old = "take n ?ys"
  have dx: "distinct xs" using d by (simp add: distinct_map)
  have dy: "distinct ?ys" using dx by simp
  have sub: "set ?old \<subseteq> set xs" using set_take_subset [of n ?ys] by simp
  have idmem: "\<And>s. s \<in> set xs \<Longrightarrow> s_id s \<in> set (map s_id ?old) \<longleftrightarrow> s \<in> set ?old"
  proof
    fix s assume s: "s \<in> set xs" and "s_id s \<in> set (map s_id ?old)"
    then obtain s' where s': "s' \<in> set ?old" and "s_id s' = s_id s" by auto
    with sub have "s' \<in> set xs" by blast
    with d s \<open>s_id s' = s_id s\<close> have "s' = s" by (meson distinct_map inj_onD)
    with s' show "s \<in> set ?old" by simp
  next
    fix s assume "s \<in> set ?old"
    then show "s_id s \<in> set (map s_id ?old)" by simp
  qed
  have setk: "set kept = set xs - set ?old"
    unfolding kept_def using idmem by auto
  show "set kept \<subseteq> set xs" using setk by blast
  have "length kept = card ({s. s_id s \<notin> set (map s_id ?old)} \<inter> set xs)"
    unfolding kept_def using dx by (rule distinct_length_filter)
  also have "{s. s_id s \<notin> set (map s_id ?old)} \<inter> set xs = set xs - set ?old"
    using idmem by auto
  also have "card (set xs - set ?old) = card (set xs) - card (set ?old)"
    using sub by (simp add: card_Diff_subset)
  also have "card (set xs) = length xs" using dx by (rule distinct_card)
  also have "card (set ?old) = n"
    using dy n by (simp add: distinct_card)
  finally show "length kept = length xs - n" .
  have srt: "sorted (map s_createdAt (take n ?ys) @ map s_createdAt (drop n ?ys))"
    using sorted_sort_key [of s_createdAt xs] by (simp only: map_append [symmetric] append_take_drop_id)
  show "\<forall>k\<in>set kept. \<forall>g\<in>set xs - set kept. s_createdAt g \<le> s_createdAt k"
  proof (intro ballI)
    fix k g assume k: "k \<in> set kept" and g: "g \<in> set xs - set kept"
    from g setk have g': "g \<in> set ?old" by blast
    from k setk have "k \<in> set ?ys" and "k \<notin> set ?old" by simp_all
    then have k': "k \<in> set (drop n ?ys)"
      using set_append [of "take n ?ys" "drop n ?ys"] by (simp only: append_take_drop_id) blast
    from srt g' k' show "s_createdAt g \<le> s_createdAt k"
      unfolding sorted_append by simp
  qed
qed

lemma afterCleanup_over:
  assumes "distinct (map s_id xs)" and "MAX_SUMMARY_HISTORY < length xs"
  shows "length (afterCleanup (length xs) xs) = MAX_SUMMARY_HISTORY"
    and "set (afterCleanup (length xs) xs) \<subseteq> set xs"
    and "\<forall>k\<in>set (afterCleanup (length xs) xs). \<forall>g\<in>set xs - set (afterCleanup (length xs) xs).
           s_createdAt g \<le> s_createdAt k"
proof -
  let ?n = "length xs - MAX_SUMMARY_HISTORY"
  have n: "?n \<le> length xs" by simp
  have eq: "afterCleanup (length xs) xs
      = filter (\<lambda>s. s_id s \<notin> set (map s_id (take ?n (sort_key s_createdAt xs)))) xs"
    using assms(2) by (simp add: afterCleanup_def Let_def)
  show "length (afterCleanup (length xs) xs) = MAX_SUMMARY_HISTORY"
    unfolding eq using drop_oldest(1) [OF assms(1) n] assms(2) by simp
  show "set (afterCleanup (length xs) xs) \<subseteq> set xs"
    unfolding eq by (rule drop_oldest(2) [OF assms(1) n])
  show "\<forall>k\<in>set (afterCleanup (length xs) xs). \<forall>g\<in>set xs - set (afterCleanup (length xs) xs).
           s_createdAt g \<le> s_createdAt k"
    unfolding eq by (rule drop_oldest(3) [OF assms(1) n])
qed

lemma afterCleanup_under: "c \<le> MAX_SUMMARY_HISTORY \<Longrightarrow> afterCleanup c xs = xs"
  by (simp add: afterCleanup_def)

lemma cleanup_summariesOf:
  assumes "distinct (map s_id (summaries d))" and "distinct (map u_id (users d))"
    and "user \<in> set (users d)"
  shows "summariesOf (u_id user) (cleanupOldSummaries d)
           = afterCleanup (countSummaries (u_id user) d) (summariesOf (u_id user) d)"
proof (cases "list_ex (\<lambda>s. s_userId s = u_id user) (summaries d)")
  case True
  have fsts: "map fst (usersWithManySummaries d)
      = map u_id (filter (\<lambda>u. list_ex (\<lambda>s. s_userId s = u_id u) (summaries d)) (users d))"
    by (simp add: usersWithManySummaries_def comp_def)
  have dist: "distinct (map fst (usersWithManySummaries d))"
    unfolding fsts using assms(2) by (rule distinct_map_filter)
  have "(u_id user, countSummaries (u_id user) d) \<in> set (usersWithManySummaries d)"
    using True assms(3) by (auto simp: usersWithManySummaries_def)
  from cleanupLoop_listed [OF assms(1) dist this] show ?thesis
    by (simp add: cleanupOldSummaries_def)
next
  case False
  then have none: "summariesOf (u_id user) d = []"
    by (auto simp: summariesOf_def list_ex_iff filter_empty_conv)
  then have "countSummaries (u_id user) d = 0"
    by (simp add: countSummaries_def summariesOf_def)
  then have a: "afterCleanup (countSummaries (u_id user) d) (summariesOf (u_id user) d)
      = summariesOf (u_id user) d"
    by (simp add: afterCleanup_under)
  have "u_id user \<notin> fst ` set (usersWithManySummaries d)"
    using False by (auto simp: usersWithManySummaries_def)
  from cleanupLoop_unlisted [OF assms(1) this] a show ?thesis
    by (simp add: cleanupOldSummaries_def)
qed

text \<open>
  Claim C8.  In a database whose summary ids and user ids are distinct (they are primary
  keys), a user with more than \<open>MAX_SUMMARY_HISTORY\<close> summaries has exactly
  \<open>MAX_SUMMARY_HISTORY\<close> of them after cleanupOldSummaries, each of them one the user had,
  and every summary that was removed was created no later than every summary that was
  kept.  The summaries of a user at or below the cap are untouched.
\<close>

theorem cleanupOldSummaries_retention:
  assumes ids: "distinct (map s_id (summaries d))" and uids: "distinct (map u_id (users d))"
    and user: "user \<in> set (users d)"
  shows "(MAX_SUMMARY_HISTORY < countSummaries (u_id user) d \<longrightarrow>
            countSummaries (u_id user) (cleanupOldSummaries d) = MAX_SUMMARY_HISTORY
          \<and> set (summariesOf (u_id user) (cleanupOldSummaries d)) \<subseteq> set (summariesOf (u_id user) d)
          \<and> (\<forall>kept\<in>set (summariesOf (u_id user) (cleanupOldSummaries d)).
               \<forall>gone\<in>set (summariesOf (u_id user) d) - set (summariesOf (u_id user) (cleanupOldSummaries d)).
                 s_createdAt gone \<le> s_createdAt kept))
       \<and> (countSummaries (u_id user) d \<le> MAX_SUMMARY_HISTORY \<longrightarrow>
            summariesOf (u_id user) (cleanupOldSummaries d) = summariesOf (u_id user) d)"
proof -
  let ?xs = "summariesOf (u_id user) d"
  have c: "countSummaries (u_id user) d = length ?xs"
    by (simp add: countSummaries_def summariesOf_def)
  have c': "countSummaries (u_id user) (cleanupOldSummaries d)
      = length (summariesOf (u_id user) (cleanupOldSummaries d))"
    by (simp add: countSummaries_def summariesOf_def)
  have dx: "distinct (map s_id ?xs)"
    unfolding summariesOf_def using ids by (rule distinct_map_filter)
  note eq = cleanup_summariesOf [OF ids uids user, unfolded c]
  show ?thesis
  proof (intro conjI impI)
    assume "MAX_SUMMARY_HISTORY < countSummaries (u_id user) d"
    then have over: "MAX_SUMMARY_HISTORY < length ?xs" by (simp add: c)
    show "countSummaries (u_id user) (cleanupOldSummaries d) = MAX_SUMMARY_HISTORY"
      unfolding c' eq by (rule afterCleanup_over(1) [OF dx over])
    show "set (summariesOf (u_id user) (cleanupOldSummaries d)) \<subseteq> set ?xs"
      unfolding eq by (rule afterCleanup_over(2) [OF dx over])
    show "\<forall>kept\<in>set (summariesOf (u_id user) (cleanupOldSummaries d)).
               \<forall>gone\<in>set ?xs - set (summariesOf (u_id user) (cleanupOldSummaries d)).
                 s_createdAt gone \<le> s_createdAt kept"
      unfolding eq by (rule afterCleanup_over(3) [OF dx over])
  next
    assume "countSummaries (u_id user) d \<le> MAX_SUMMARY_HISTORY"
    then show "summariesOf (u_id user) (cleanupOldSummaries d) = ?xs"
      unfolding eq c by (rule afterCleanup_under)
  qed
qed

lemma nthSummary_sel [simp]:
  "s_id (nthSummary n) = replicate n (CHR ''x'')" "s_userId (nthSummary n) = ''u1''"
  "s_createdAt (nthSummary n) = n"
  by (simp_all add: nthSummary_def exampleSummary_def)

theorem cleanupOldSummaries_retention_witness:
  "distinct (map s_id (summaries fullDb)) \<and> distinct (map u_id (users fullDb))
   \<and> exampleUser 10 \<in> set (users fullDb)
   \<and> countSummaries ''u1'' fullDb = 101
   \<and> countSummaries ''u1'' (cleanupOldSummaries fullDb) = 100"
proof -
  have h1: "distinct (map s_id (summaries fullDb))"
    by (simp add: fullDb_def distinct_map comp_def inj_on_def replicate_eq_replicate)
  have h2: "distinct (map u_id (users fullDb))" by (simp add: fullDb_def)
  have h3: "exampleUser 10 \<in> set (users fullDb)" by (simp add: fullDb_def)
  have u: "u_id (exampleUser 10) = ''u1''" by (simp add: exampleUser_def)
  have "filter (\<lambda>s. s_userId s = ''u1'') (map nthSummary [0..<101]) = map nthSummary [0..<101]"
    by (simp add: filter_map comp_def)
  then have h4: "countSummaries ''u1'' fullDb = 101"
    by (simp add: countSummaries_def fullDb_def)
  from cleanupOldSummaries_retention [OF h1 h2 h3, THEN conjunct1, unfolded u] h4
  have "countSummaries ''u1'' (cleanupOldSummaries fullDb) = 100"
    by (simp add: MAX_SUMMARY_HISTORY_def)
  with h1 h2 h3 h4 show ?thesis by (intro conjI)
qed

section \<open>Login\<close>

lemma login_unfold:
  "login cfg en signInWithPassword dat d =
     (case user_findByEmail (toLowerCase (ld_email dat)) d of
        None \<Rightarrow> (Inl (AppError ''Invalid email or password'' 401), d)
      | Some user \<Rightarrow>
          (case user_update en (u_id user) (\<lambda>u. u\<lparr>u_lastLoginAt := Some (now en)\<rparr>)
                  (UserTouched (u_id user)) d of
             Inl e \<Rightarrow> (Inl (rethrow ''Login failed'' 500 e), d)
           | Inr d1 \<Rightarrow>
               (case refreshToken_create (issuedRow cfg en user) d1 of
                  Inl e \<Rightarrow> (Inl (rethrow ''Login failed'' 500 e), d1)
                | Inr d2 \<Rightarrow> (Inr (ok (issuedResponse cfg en user)), d2))))"
  by (simp add: login_def issuedRow_def issuedResponse_def Let_def
      split: sum.splits option.splits)

lemma list_ex_map_same_id:
  assumes "x \<in> set xs" and "\<And>u. u_id (f u) = u_id u"
  shows "list_ex (\<lambda>u. u_id u = u_id x) (map f xs)"
  using assms by (induction xs) auto

lemma user_update_Inr:
  assumes "x \<in> set (users d)" and "u_id x = uid"
  shows "user_update en uid f ev d
    = Inr (logEvent ev (d\<lparr>users := map (\<lambda>u. if u_id u = uid then (f u)\<lparr>u_updatedAt := now en\<rparr> else u) (users d)\<rparr>))"
proof (cases "find (\<lambda>u. u_id u = uid) (users d)")
  case None
  with assms show ?thesis by (auto simp: find_None_iff)
next
  case (Some a)
  then show ?thesis by (simp add: user_update_def)
qed

text \<open>
  Claim C9.  Once a user row with the lower-cased email is found, login succeeds and issues
  an access token and a refresh token, whatever the password and whatever the federated
  sign-in answers (success, error or exception): the result of login does not depend on
  the password or on the federated check.  The id and the token of the new refresh token row
  are ones the table does not hold yet.
\<close>

theorem login_accepts_any_password:
  assumes user: "user_findByEmail (toLowerCase (ld_email dat)) d = Some user"
    and freshId: "\<forall>r\<in>set (refreshTokens d). rt_id r \<noteq> newId en"
    and freshToken: "\<forall>r\<in>set (refreshTokens d). rt_token r \<noteq> rt_token (issuedRow cfg en user)"
  shows "(\<exists>d'. login cfg en signInWithPassword dat d = (Inr (ok (issuedResponse cfg en user)), d')
            \<and> refreshTokens d' = refreshTokens d @ [issuedRow cfg en user]
            \<and> journal d' = journal d @ [UserTouched (u_id user), RefreshTokenCreated (newId en)])
       \<and> (\<forall>signIn' password'.
             login cfg en signIn' (dat\<lparr>ld_password := password'\<rparr>) d
               = login cfg en signInWithPassword dat d)"
proof -
  let ?f = "\<lambda>u. if u_id u = u_id user then (u\<lparr>u_lastLoginAt := Some (now en)\<rparr>)\<lparr>u_updatedAt := now en\<rparr> else u"
  let ?d1 = "logEvent (UserTouched (u_id user)) (d\<lparr>users := map ?f (users d)\<rparr>)"
  let ?d2 = "logEvent (RefreshTokenCreated (newId en)) (?d1\<lparr>refreshTokens := refreshTokens d @ [issuedRow cfg en user]\<rparr>)"
  from user have mem: "user \<in> set (users d)"
    using find_Some_ex [of "\<lambda>u. u_email u = toLowerCase (ld_email dat)" "users d" user]
    by (simp add: user_findByEmail_def)
  have up: "user_update en (u_id user) (\<lambda>u. u\<lparr>u_lastLoginAt := Some (now en)\<rparr>)
              (UserTouched (u_id user)) d = Inr ?d1"
    using user_update_Inr [OF mem refl] by simp
  have "list_ex (\<lambda>u. u_id u = u_id user) (map ?f (users d))"
    using mem by (rule list_ex_map_same_id) simp
  then have fk: "list_ex (\<lambda>u. u_id u = u_id user) (users ?d1)"
    by (simp add: logEvent_def)
  have rt1: "refreshTokens ?d1 = refreshTokens d" by (simp add: logEvent_def)
  have pk: "\<not> list_ex (\<lambda>r. rt_id r = newId en) (refreshTokens ?d1)"
    using freshId unfolding rt1 list_ex_iff by blast
  have uq: "\<not> list_ex (\<lambda>r. rt_token r = rt_token (issuedRow cfg en user)) (refreshTokens ?d1)"
    using freshToken unfolding rt1 list_ex_iff by blast
  have cr: "refreshToken_create (issuedRow cfg en user) ?d1 = Inr ?d2"
    unfolding refreshToken_create_def using pk uq fk rt1 by simp
  have res: "login cfg en signInWithPassword dat d = (Inr (ok (issuedResponse cfg en user)), ?d2)"
    unfolding login_unfold using user up cr by simp
  have "refreshTokens ?d2 = refreshTokens d @ [issuedRow cfg en user]"
    and "journal ?d2 = journal d @ [UserTouched (u_id user), RefreshTokenCreated (newId en)]"
    by (simp_all add: logEvent_def)
  with res have part1: "\<exists>d'. login cfg en signInWithPassword dat d = (Inr (ok (issuedResponse cfg en user)), d')
            \<and> refreshTokens d' = refreshTokens d @ [issuedRow cfg en user]
            \<and> journal d' = journal d @ [UserTouched (u_id user), RefreshTokenCreated (newId en)]"
    by blast
  have part2: "\<forall>signIn' password'.
             login cfg en signIn' (dat\<lparr>ld_password := password'\<rparr>) d
               = login cfg en signInWithPassword dat d"
    unfolding login_unfold by simp
  from part1 part2 show ?thesis by (intro conjI)
qed

lemma toLowerCase_example: "toLowerCase ''Ann@Example.com'' = ''ann@example.com''"
  by code_simp

theorem login_accepts_any_password_witness:
  "user_findByEmail (toLowerCase (ld_email exampleLogin)) authDb = Some federatedUser
   \<and> wrongPassword (toLowerCase (ld_email exampleLogin)) (ld_password exampleLogin) = SignInError
   \<and> (\<exists>d'. login exampleConfig firstEnv wrongPassword exampleLogin authDb
              = (Inr (ok (issuedResponse exampleConfig firstEnv federatedUser)), d')
          \<and> length (refreshTokens d') = 2)"
proof -
  have h1: "user_findByEmail (toLowerCase (ld_email exampleLogin)) authDb = Some federatedUser"
    by (simp add: user_findByEmail_def exampleLogin_def toLowerCase_example authDb_def federatedUser_def)
  have h2: "\<forall>r\<in>set (refreshTokens authDb). rt_id r \<noteq> newId firstEnv"
    by (simp add: authDb_def firstEnv_def)
  have h3: "\<forall>r\<in>set (refreshTokens authDb). rt_token r \<noteq> rt_token (issuedRow exampleConfig firstEnv federatedUser)"
    by (simp add: authDb_def firstEnv_def issuedRow_def exampleToken_def generateRefreshToken_def
        jwt_sign_def)
  have h4: "wrongPassword (toLowerCase (ld_email exampleLogin)) (ld_password exampleLogin) = SignInError"
    by (simp add: wrongPassword_def)
  from login_accepts_any_password [OF h1 h2 h3, of wrongPassword, THEN conjunct1]
  obtain d' where g: "login exampleConfig firstEnv wrongPassword exampleLogin authDb
              = (Inr (ok (issuedResponse exampleConfig firstEnv federatedUser)), d')"
    and r: "refreshTokens d' = refreshTokens authDb @ [issuedRow exampleConfig firstEnv federatedUser]"
    by blast
  have "length (refreshTokens d') = 2" using r by (simp add: authDb_def)
  with h1 h4 g show ?thesis by blast
qed

section \<open>Saving is never billed\<close>

lemma saveSummary_users:
  "users (snd (saveSummary en userId summaryData d)) = users d"
  by (auto simp: saveSummary_def summary_update_def summary_create_def logEvent_def
      split: option.splits sum.splits if_splits)

text \<open>
  Claim C10.  On the create path of saveSummary (no id, the required video metadata
  present), for an existing user and a new row id, the summary is created in status
  \<open>COMPLETED\<close> and the users table is left exactly as it was.
\<close>

theorem saveSummary_create_unbilled:
  assumes "\<not> present (in_id summaryData)"
    and "present (in_videoId summaryData)" and "present (in_videoTitle summaryData)"
    and "present (in_channelName summaryData)"
    and "\<exists>u\<in>set (users d). u_id u = userId"
    and "\<forall>s\<in>set (summaries d). s_id s \<noteq> newId en"
  shows "\<exists>row d'. saveSummary en userId summaryData d = (Inr (ok (formatSummary row)), d')
           \<and> s_status row = COMPLETED \<and> s_userId row = userId
           \<and> summaries d' = summaries d @ [row]
           \<and> users d' = users d \<and> refreshTokens d' = refreshTokens d
           \<and> journal d' = journal d @ [SummaryCreated (newId en) COMPLETED]
           \<and> (\<forall>en0 userId0 summaryData0 d0.
                 users (snd (saveSummary en0 userId0 summaryData0 d0)) = users d0)"
proof -
  let ?row = "savedSummaryRow en userId summaryData"
  have id: "s_id ?row = newId en" and uid: "s_userId ?row = userId" and st: "s_status ?row = COMPLETED"
    by (simp_all add: savedSummaryRow_def)
  have c: "summary_create ?row d =
      Inr (?row, logEvent (SummaryCreated (newId en) COMPLETED) (d\<lparr>summaries := summaries d @ [?row]\<rparr>))"
    using assms(5,6) unfolding summary_create_def id uid st
    by (auto simp: list_ex_iff)
  have created: "saveSummary en userId summaryData d =
      (Inr (ok (formatSummary ?row)),
       logEvent (SummaryCreated (newId en) COMPLETED) (d\<lparr>summaries := summaries d @ [?row]\<rparr>))"
    using assms(1-4) c by (simp add: saveSummary_def)
  have frame: "\<forall>en0 userId0 summaryData0 d0.
                 users (snd (saveSummary en0 userId0 summaryData0 d0)) = users d0"
    by (simp add: saveSummary_users)
  have "saveSummary en userId summaryData d =
      (Inr (ok (formatSummary ?row)),
       logEvent (SummaryCreated (newId en) COMPLETED) (d\<lparr>summaries := summaries d @ [?row]\<rparr>))
     \<and> s_status ?row = COMPLETED \<and> s_userId ?row = userId
     \<and> summaries (logEvent (SummaryCreated (newId en) COMPLETED) (d\<lparr>summaries := summaries d @ [?row]\<rparr>))
         = summaries d @ [?row]
     \<and> users (logEvent (SummaryCreated (newId en) COMPLETED) (d\<lparr>summaries := summaries d @ [?row]\<rparr>))
         = users d
     \<and> refreshTokens (logEvent (SummaryCreated (newId en) COMPLETED) (d\<lparr>summaries := summaries d @ [?row]\<rparr>))
         = refreshTokens d
     \<and> journal (logEvent (SummaryCreated (newId en) COMPLETED) (d\<lparr>summaries := summaries d @ [?row]\<rparr>))
         = journal d @ [SummaryCreated (newId en) COMPLETED]"
    using created st uid by (simp add: logEvent_def)
  with frame show ?thesis by blast
qed

theorem saveSummary_create_unbilled_witness:
  "\<not> present (in_id exampleInput) \<and> present (in_videoId exampleInput)
   \<and> present (in_videoTitle exampleInput) \<and> present (in_channelName exampleInput)
   \<and> (\<exists>row d'. saveSummary exampleEnv ''u1'' exampleInput (exampleDb 10 [exampleSummary])
                      = (Inr (ok (formatSummary row)), d')
           \<and> s_status row = COMPLETED \<and> s_userId row = ''u1''
           \<and> summaries d' = [exampleSummary, row]
           \<and> users d' = [exampleUser 10])"
proof -
  have h1: "\<not> present (in_id exampleInput)" and h2: "present (in_videoId exampleInput)"
    and h3: "present (in_videoTitle exampleInput)" and h4: "present (in_channelName exampleInput)"
    by (simp_all add: exampleInput_def)
  have h5: "\<exists>u\<in>set (users (exampleDb 10 [exampleSummary])). u_id u = ''u1''"
    by (simp add: exampleDb_def exampleUser_def)
  have h6: "\<forall>s\<in>set (summaries (exampleDb 10 [exampleSummary])). s_id s \<noteq> newId exampleEnv"
    by (simp add: exampleDb_def exampleSummary_def exampleEnv_def)
  from saveSummary_create_unbilled [OF h1 h2 h3 h4 h5 h6]
  obtain row d' where
    g: "saveSummary exampleEnv ''u1'' exampleInput (exampleDb 10 [exampleSummary])
          = (Inr (ok (formatSummary row)), d')"
    and st: "s_status row = COMPLETED" and ow: "s_userId row = ''u1''"
    and sm: "summaries d' = summaries (exampleDb 10 [exampleSummary]) @ [row]"
    and us: "users d' = users (exampleDb 10 [exampleSummary])"
    by blast
  have "summaries d' = [exampleSummary, row]" using sm by (simp add: exampleDb_def)
  moreover have "users d' = [exampleUser 10]" using us by (simp add: exampleDb_def)
  ultimately show ?thesis using h1 h2 h3 h4 g st ow by blast
qed

end
